theory Spec2Isabelle
  imports Complex_Main "HOL-Library.Word"
begin

section \<open>Double precision arithmetic (gdouble)\<close>

text \<open>
  The element computes its rates in \<^verbatim>\<open>gdouble\<close>, which is IEEE 754 binary64 on every
  platform GLib supports.  A double is either a finite number
  \<open>(-1)\<^sup>s \<sqdot> m \<sqdot> 2\<^sup>e\<close>, an infinity or a NaN (payloads are not distinguished).
  A finite double is in canonical form when \<open>2\<^sup>5\<^sup>2 \<le> m < 2\<^sup>5\<^sup>3\<close> and
  \<open>-1074 \<le> e \<le> 971\<close> (normal numbers) or \<open>m < 2\<^sup>5\<^sup>2\<close> and \<open>e = -1074\<close>
  (zeros and subnormal numbers); this is the bit pattern of the number, read as
  \<open>m = 2\<^sup>5\<^sup>2 + fraction\<close>, \<open>e = exponent - 1075\<close>.

  Every operation is the exact result rounded to nearest, ties to even, which is the
  default rounding mode and the only one the element runs in.  It is assumed that each
  C operator is rounded on its own (no fused multiply-add, no excess precision).
\<close>

datatype double = Finite bool int int | Infinity bool | NaN

function bit_length :: "int \<Rightarrow> int" where
  "bit_length n = (if n \<le> 0 then 0 else 1 + bit_length (n div 2))"
  by pat_completeness auto
termination
  by (relation "measure nat") auto

declare bit_length.simps [simp del]

text \<open>The integer nearest to \<open>n / d\<close> (for \<open>0 < d\<close>), the even one of two nearest.\<close>

definition round_nearest_even :: "int \<Rightarrow> int \<Rightarrow> int" where
  "round_nearest_even n d =
     (let q = n div d; r = n mod d
      in if 2 * r < d then q else if d < 2 * r then q + 1
         else if even q then q else q + 1)"

text \<open>
  \<open>round_double s n d e\<close> is the double nearest to \<open>(-1)\<^sup>s \<sqdot> (n / d) \<sqdot> 2\<^sup>e\<close>, for
  \<open>0 \<le> n\<close> and \<open>0 < d\<close>: \<open>fl\<close> is the position of the leading bit of \<open>n / d\<close>, \<open>k\<close> the
  exponent of the unit in the last place (not below that of the subnormal numbers), \<open>m\<close>
  the quotient in units of \<open>2\<^sup>k\<close>.  A result beyond the largest finite double is
  an infinity.
\<close>

definition round_double :: "bool \<Rightarrow> int \<Rightarrow> int \<Rightarrow> int \<Rightarrow> double" where
  "round_double s n d e =
     (if n = 0 then Finite s 0 (- 1074)
      else
        let l = bit_length n - bit_length d;
            fl = (if (if 0 \<le> l then d * 2 ^ nat l \<le> n else d \<le> n * 2 ^ nat (- l))
                  then l else l - 1);
            k = max (fl + e - 52) (- 1074);
            sh = e - k;
            m = (if 0 \<le> sh then round_nearest_even (n * 2 ^ nat sh) d
                 else round_nearest_even n (d * 2 ^ nat (- sh)));
            k' = (if m = 2 ^ 53 then k + 1 else k);
            m' = (if m = 2 ^ 53 then 2 ^ 52 else m)
        in if 971 < k' then Infinity s else Finite s m' k')"

fun fneg :: "double \<Rightarrow> double" where
  "fneg (Finite s m e) = Finite (\<not> s) m e"
| "fneg (Infinity s) = Infinity (\<not> s)"
| "fneg NaN = NaN"

fun fadd :: "double \<Rightarrow> double \<Rightarrow> double" where
  "fadd NaN _ = NaN"
| "fadd _ NaN = NaN"
| "fadd (Infinity s) (Infinity t) = (if s = t then Infinity s else NaN)"
| "fadd (Infinity s) (Finite _ _ _) = Infinity s"
| "fadd (Finite _ _ _) (Infinity t) = Infinity t"
| "fadd (Finite s m e) (Finite t n f) =
     (let k = min e f;
          x = (if s then - m else m) * 2 ^ nat (e - k)
            + (if t then - n else n) * 2 ^ nat (f - k)
      in if x = 0 then Finite (s \<and> t) 0 (- 1074) else round_double (x < 0) \<bar>x\<bar> 1 k)"

definition fsub :: "double \<Rightarrow> double \<Rightarrow> double" where
  "fsub a b = fadd a (fneg b)"

fun fmul :: "double \<Rightarrow> double \<Rightarrow> double" where
  "fmul NaN _ = NaN"
| "fmul _ NaN = NaN"
| "fmul (Infinity s) (Infinity t) = Infinity (s \<noteq> t)"
| "fmul (Infinity s) (Finite t n f) = (if n = 0 then NaN else Infinity (s \<noteq> t))"
| "fmul (Finite s m e) (Infinity t) = (if m = 0 then NaN else Infinity (s \<noteq> t))"
| "fmul (Finite s m e) (Finite t n f) = round_double (s \<noteq> t) (m * n) 1 (e + f)"

fun fdiv :: "double \<Rightarrow> double \<Rightarrow> double" where
  "fdiv NaN _ = NaN"
| "fdiv _ NaN = NaN"
| "fdiv (Infinity s) (Infinity t) = NaN"
| "fdiv (Infinity s) (Finite t n f) = Infinity (s \<noteq> t)"
| "fdiv (Finite s m e) (Infinity t) = Finite (s \<noteq> t) 0 (- 1074)"
| "fdiv (Finite s m e) (Finite t n f) =
     (if n = 0 then (if m = 0 then NaN else Infinity (s \<noteq> t))
      else round_double (s \<noteq> t) m n (e - f))"

text \<open>Conversion of an integer to double (exact below \<open>2\<^sup>5\<^sup>3\<close>), and of the unsigned types.\<close>

definition int_to_double :: "int \<Rightarrow> double" where
  "int_to_double i = round_double (i < 0) \<bar>i\<bar> 1 0"

definition u32_to_double :: "32 word \<Rightarrow> double" where
  "u32_to_double w = int_to_double (uint w)"

definition u64_to_double :: "64 word \<Rightarrow> double" where
  "u64_to_double w = int_to_double (uint w)"

text \<open>The real number a finite double stands for.\<close>

fun valof :: "double \<Rightarrow> real option" where
  "valof (Finite s m e) =
     Some ((if s then - 1 else 1)
           * (if 0 \<le> e then of_int m * 2 ^ nat e else of_int m / 2 ^ nat (- e)))"
| "valof (Infinity s) = None"
| "valof NaN = None"

section \<open>The element's state\<close>

type_synonym guint = "32 word"
type_synonym guint32 = "32 word"
type_synonym guint64 = "64 word"
type_synonym GstClockTime = "64 word"
type_synonym gdouble = double

text \<open>The anonymous struct \<^verbatim>\<open>gpu_stats\<close> of \<^verbatim>\<open>struct _GstPerf\<close>.\<close>

record gpu_stats_t =
  encoder_utilization :: guint
  session_count :: guint
  average_fps :: guint
  average_latency :: guint64
  gpu_utilization :: guint
  memory_used :: guint
  memory_free :: guint

text \<open>
  \<^verbatim>\<open>struct _GstPerf\<close>, without the parent object, the pads, the \<^verbatim>\<open>GError\<close>, the
  mutexes and the timer's source id.  \<open>bps_window_buffer\<close> is the array the pointer
  refers to: the empty list when nothing is allocated.
\<close>

record GstPerf =
  prev_timestamp :: GstClockTime
  fps :: gdouble
  frame_count :: guint32
  frame_count_total :: guint64
  bps :: gdouble
  mean_bps :: gdouble
  bps_window_buffer :: "gdouble list"
  bps_window_size :: guint32
  bps_window_buffer_current :: guint32
  byte_count :: guint64
  byte_count_total :: guint64
  bps_interval :: guint
  bps_running_interval :: guint
  prev_cpu_total :: guint32
  prev_cpu_idle :: guint32
  gpu_stats :: gpu_stats_t
  print_cpu_load :: bool
  gpu_stats_enabled :: bool

definition GST_PERF_BITS_PER_BYTE :: guint where
  "GST_PERF_BITS_PER_BYTE = 8"

definition GST_PERF_MS_PER_S :: gdouble where
  "GST_PERF_MS_PER_S = int_to_double 1000"

section \<open>The averaging functions\<close>

text \<open>
  \<^verbatim>\<open>gst_perf_update_average (guint64 count, gdouble current, gdouble old)\<close>:
  \<^verbatim>\<open>ret = 0; if (count != 0) ret = ((count - 1) * old + current) / count;\<close>
  The subtraction is in \<^verbatim>\<open>guint64\<close>; its result and \<open>count\<close> are converted to double.
\<close>

definition gst_perf_update_average :: "guint64 \<Rightarrow> gdouble \<Rightarrow> gdouble \<Rightarrow> gdouble" where
  "gst_perf_update_average count current old =
     (if count \<noteq> 0
      then fdiv (fadd (fmul (u64_to_double (count - 1)) old) current) (u64_to_double count)
      else int_to_double 0)"

text \<open>
  \<^verbatim>\<open>gst_perf_update_moving_average (guint64 window_size, gdouble old_average,
  gdouble new_sample, gdouble old_sample)\<close>:
  \<^verbatim>\<open>ret = 0; if (window_size != 0)
  ret = (old_average * window_size - old_sample + new_sample) / window_size;\<close>
\<close>

definition gst_perf_update_moving_average ::
  "guint64 \<Rightarrow> gdouble \<Rightarrow> gdouble \<Rightarrow> gdouble \<Rightarrow> gdouble" where
  "gst_perf_update_moving_average window_size old_average new_sample old_sample =
     (if window_size \<noteq> 0
      then fdiv (fadd (fsub (fmul old_average (u64_to_double window_size)) old_sample)
                      new_sample)
                (u64_to_double window_size)
      else int_to_double 0)"

section \<open>The CPU load\<close>

text \<open>
  \<^verbatim>\<open>gst_perf_compute_cpu (GstPerf * self, guint32 current_idle, guint32 current_total)\<close>.
  All of its arithmetic is in \<^verbatim>\<open>guint32\<close>, modulo \<open>2\<^sup>3\<^sup>2\<close>: the two differences,
  \<open>total - idle\<close>, the product \<open>1000 * busy\<close> and the sum with 5.  The function returns
  the load and leaves the readings in \<open>self\<close>.
\<close>

definition gst_perf_compute_cpu :: "GstPerf \<Rightarrow> guint32 \<Rightarrow> guint32 \<Rightarrow> guint32 \<times> GstPerf" where
  "gst_perf_compute_cpu self current_idle current_total =
     (let idle = current_idle - prev_cpu_idle self;
          total = current_total - prev_cpu_total self;
          self' = self\<lparr>prev_cpu_total := current_total, prev_cpu_idle := current_idle\<rparr>
      in if 0 = total then (0, self')
         else let busy = total - idle
              in ((1000 * busy div total + 5) div 10, self'))"

text \<open>The rounding scheme as the specification names it.\<close>

definition round_percent :: "guint32 \<Rightarrow> guint32 \<Rightarrow> guint32" where
  "round_percent busy delta_total = (1000 * busy div delta_total + 5) div 10"

text \<open>
  The load of the specification, over the integers: 0 when the difference of the totals
  is 0, and otherwise \<open>(1000 * busy / delta_total + 5) / 10\<close>.
\<close>

definition cpu_load_spec :: "nat \<Rightarrow> nat \<Rightarrow> nat" where
  "cpu_load_spec busy delta_total =
     (if delta_total = 0 then 0 else (1000 * busy div delta_total + 5) div 10)"

text \<open>
  \<^verbatim>\<open>gst_perf_cpu_get_load\<close> (the Linux variant) reads the line \<^verbatim>\<open>cpu\<close> of
  \<^verbatim>\<open>/proc/stat\<close>.  The file is outside the element: a reading is \<open>None\<close> when the file or
  the line is missing, and the eight counters otherwise.  On failure the load is the
  default \<^verbatim>\<open>-1\<close> and the previous readings are kept.
\<close>

record cpu_times =
  cpu_user :: guint32
  cpu_nice :: guint32
  cpu_sys :: guint32
  cpu_idle :: guint32
  cpu_iowait :: guint32
  cpu_irq :: guint32
  cpu_softirq :: guint32
  cpu_steal :: guint32

definition gst_perf_cpu_get_load ::
  "GstPerf \<Rightarrow> cpu_times option \<Rightarrow> bool \<times> guint32 \<times> GstPerf" where
  "gst_perf_cpu_get_load perf proc_stat =
     (case proc_stat of
        None \<Rightarrow> (False, - 1, perf)
      | Some t \<Rightarrow>
          let total = cpu_user t + cpu_nice t + cpu_sys t + cpu_idle t + cpu_iowait t
                      + cpu_irq t + cpu_softirq t + cpu_steal t;
              (cpu_load, perf') = gst_perf_compute_cpu perf (cpu_idle t) total
          in (True, cpu_load, perf'))"

section \<open>The GPU counters\<close>

text \<open>
  \<^verbatim>\<open>gst_perf_get_gpu_stats\<close> runs \<^verbatim>\<open>nvidia-smi\<close> with \<^verbatim>\<open>g_spawn_command_line_sync\<close>,
  whose outcome is an input here: its return value, the exit status and the standard
  output.  The output is cut into tokens by \<^verbatim>\<open>strtok (output, ",")\<close> and each token is
  read by \<^verbatim>\<open>atol\<close>.
\<close>

record spawn_result =
  spawn_ret :: bool
  spawn_exit_status :: int
  spawn_output :: string

definition is_delim :: "char \<Rightarrow> bool" where
  "is_delim c = (c = CHR '','')"

text \<open>
  All the tokens successive calls of \<^verbatim>\<open>strtok\<close> return: the maximal runs of characters
  other than the comma.  A C string ends at its first NUL.
\<close>

lemma token_rest_shorter:
  assumes "dropWhile P s \<noteq> []"
  shows "length (dropWhile (\<lambda>c. \<not> P c) (dropWhile P s)) < length s"
proof -
  obtain c r where cr: "dropWhile P s = c # r"
    using assms by (cases "dropWhile P s") simp_all
  have "\<not> P c"
    using hd_dropWhile [OF assms] by (simp add: cr)
  then have "dropWhile (\<lambda>c. \<not> P c) (c # r) = dropWhile (\<lambda>c. \<not> P c) r"
    by simp
  moreover have "length (dropWhile (\<lambda>c. \<not> P c) r) \<le> length r"
    by (rule length_dropWhile_le)
  moreover have "length (c # r) \<le> length s"
    using length_dropWhile_le [of P s] by (simp add: cr)
  ultimately show ?thesis
    by (simp add: cr)
qed

function strtok_tokens :: "string \<Rightarrow> string list" where
  "strtok_tokens s =
     (let s' = dropWhile is_delim s
      in if s' = [] then []
         else takeWhile (\<lambda>c. \<not> is_delim c) s'
              # strtok_tokens (dropWhile (\<lambda>c. \<not> is_delim c) s'))"
  by pat_completeness auto
termination
  by (relation "measure length") (auto simp: token_rest_shorter)

declare strtok_tokens.simps [simp del]

definition c_string :: "string \<Rightarrow> string" where
  "c_string s = takeWhile (\<lambda>c. c \<noteq> CHR 0x00) s"

definition isspace_c :: "char \<Rightarrow> bool" where
  "isspace_c c = (let n = (of_char c :: nat) in n = 32 \<or> (9 \<le> n \<and> n \<le> 13))"

definition isdigit_c :: "char \<Rightarrow> bool" where
  "isdigit_c c = (let n = (of_char c :: nat) in 48 \<le> n \<and> n \<le> 57)"

text \<open>
  \<^verbatim>\<open>atol\<close>, that is \<^verbatim>\<open>strtol (s, NULL, 10)\<close> with a 64-bit \<^verbatim>\<open>long\<close>: white space, an
  optional sign, decimal digits up to the first other character; 0 when there is no
  digit; the nearest bound of \<^verbatim>\<open>long\<close> when the number is out of range.
\<close>

definition atol :: "string \<Rightarrow> int" where
  "atol s =
     (let s1 = dropWhile isspace_c s;
          neg = (case s1 of [] \<Rightarrow> False | c # _ \<Rightarrow> c = CHR ''-'');
          s2 = (case s1 of [] \<Rightarrow> []
                | c # r \<Rightarrow> if c = CHR ''-'' \<or> c = CHR ''+'' then r else s1);
          v = foldl (\<lambda>a c. 10 * a + (of_char c - 48)) 0 (takeWhile isdigit_c s2)
      in if neg then max (- v) (- (2 ^ 63)) else min v (2 ^ 63 - 1))"

text \<open>The \<^verbatim>\<open>switch (i)\<close> of the loop: token \<open>i\<close> goes to field \<open>i\<close>, tokens from the eighth on nowhere.\<close>

definition gpu_stats_store :: "nat \<Rightarrow> guint64 \<Rightarrow> gpu_stats_t \<Rightarrow> gpu_stats_t" where
  "gpu_stats_store i number g =
     (if i = 0 then g\<lparr>encoder_utilization := ucast number\<rparr>
      else if i = 1 then g\<lparr>session_count := ucast number\<rparr>
      else if i = 2 then g\<lparr>average_fps := ucast number\<rparr>
      else if i = 3 then g\<lparr>average_latency := number\<rparr>
      else if i = 4 then g\<lparr>gpu_utilization := ucast number\<rparr>
      else if i = 5 then g\<lparr>memory_used := ucast number\<rparr>
      else if i = 6 then g\<lparr>memory_free := ucast number\<rparr>
      else g)"

fun gpu_stats_loop :: "nat \<Rightarrow> string list \<Rightarrow> gpu_stats_t \<Rightarrow> gpu_stats_t" where
  "gpu_stats_loop i [] g = g"
| "gpu_stats_loop i (token # rest) g =
     gpu_stats_loop (i + 1) rest (gpu_stats_store i (word_of_int (atol token)) g)"

definition gst_perf_get_gpu_stats :: "GstPerf \<Rightarrow> spawn_result \<Rightarrow> bool \<times> GstPerf" where
  "gst_perf_get_gpu_stats perf sp =
     (if spawn_ret sp \<and> spawn_exit_status sp = 0
      then (spawn_ret sp,
            perf\<lparr>gpu_stats :=
              gpu_stats_loop 0 (strtok_tokens (c_string (spawn_output sp))) (gpu_stats perf)\<rparr>)
      else (spawn_ret sp, perf))"

section \<open>Reset, clear, start\<close>

text \<open>GStreamer's clock macros (\<^verbatim>\<open>gst/gstclock.h\<close>); times are nanoseconds in \<^verbatim>\<open>guint64\<close>.\<close>

definition GST_CLOCK_TIME_NONE :: GstClockTime where
  "GST_CLOCK_TIME_NONE = - 1"

definition GST_CLOCK_TIME_IS_VALID :: "GstClockTime \<Rightarrow> bool" where
  "GST_CLOCK_TIME_IS_VALID t = (t \<noteq> GST_CLOCK_TIME_NONE)"

definition GST_SECOND :: "64 word" where
  "GST_SECOND = 1000000000"

definition GST_CLOCK_DIFF :: "GstClockTime \<Rightarrow> GstClockTime \<Rightarrow> 64 word" where
  "GST_CLOCK_DIFF s e = e - s"

definition gpu_stats_zero :: gpu_stats_t where
  "gpu_stats_zero =
     \<lparr>encoder_utilization = 0, session_count = 0, average_fps = 0, average_latency = 0,
      gpu_utilization = 0, memory_used = 0, memory_free = 0\<rparr>"

definition gst_perf_reset :: "GstPerf \<Rightarrow> GstPerf" where
  "gst_perf_reset perf = perf\<lparr>frame_count := 0\<rparr>"

definition gst_perf_clear :: "GstPerf \<Rightarrow> GstPerf" where
  "gst_perf_clear perf =
     (gst_perf_reset perf)
       \<lparr>fps := int_to_double 0,
        frame_count_total := 0,
        mean_bps := int_to_double 0,
        byte_count_total := 0,
        byte_count := 0,
        prev_timestamp := GST_CLOCK_TIME_NONE,
        prev_cpu_total := 0,
        prev_cpu_idle := 0,
        gpu_stats := gpu_stats_zero\<rparr>"

text \<open>
  \<^verbatim>\<open>gst_perf_init\<close> on the zero-filled instance GObject hands it: clear, then the
  defaults of the properties.
\<close>

definition gst_perf_init :: GstPerf where
  "gst_perf_init =
     (gst_perf_clear
        \<lparr>prev_timestamp = 0, fps = int_to_double 0, frame_count = 0, frame_count_total = 0,
         bps = int_to_double 0, mean_bps = int_to_double 0, bps_window_buffer = [],
         bps_window_size = 0, bps_window_buffer_current = 0, byte_count = 0,
         byte_count_total = 0, bps_interval = 0, bps_running_interval = 0,
         prev_cpu_total = 0, prev_cpu_idle = 0, gpu_stats = gpu_stats_zero,
         print_cpu_load = False, gpu_stats_enabled = False\<rparr>)
       \<lparr>print_cpu_load := False,
        gpu_stats_enabled := False,
        bps_window_size := 0,
        bps_interval := 1000,
        bps_running_interval := 1000,
        bps_window_buffer_current := 0\<rparr>"

text \<open>
  \<^verbatim>\<open>gst_perf_start\<close>: clear, allocate the zero-filled window when its size is not 0
  (\<^verbatim>\<open>g_malloc0\<close> returns or aborts the process), take over the interval.  The timer it
  registers calls \<^verbatim>\<open>gst_perf_update_bps\<close> every \<open>bps_interval\<close> milliseconds.
\<close>

definition gst_perf_start :: "GstPerf \<Rightarrow> GstPerf" where
  "gst_perf_start perf =
     (let p = gst_perf_clear perf;
          p' = (if bps_window_size p \<noteq> 0
                then p\<lparr>bps_window_buffer :=
                        replicate (unat (bps_window_size p)) (int_to_double 0)\<rparr>
                else p)
      in p'\<lparr>bps_running_interval := bps_interval p'\<rparr>)"

section \<open>The bitrate sampler\<close>

text \<open>
  \<^verbatim>\<open>gst_perf_update_bps\<close>.  The local \<^verbatim>\<open>byte_count\<close> is a \<^verbatim>\<open>guint\<close>, so the 64-bit
  counter is truncated on the way in and its product with
  \<^verbatim>\<open>GST_PERF_BITS_PER_BYTE\<close> is taken modulo \<open>2\<^sup>3\<^sup>2\<close>; the quotient is in double.  An
  index outside the allocated window is a fault (the C reads and writes foreign memory).
\<close>

datatype fault = OutOfBounds

definition gst_perf_update_bps :: "GstPerf \<Rightarrow> fault + GstPerf" where
  "gst_perf_update_bps perf0 =
     (let local_byte_count = (ucast (byte_count perf0) :: guint);
          perf = perf0\<lparr>byte_count := 0\<rparr>;
          mean = mean_bps perf;
          bps' = fdiv (u32_to_double (local_byte_count * GST_PERF_BITS_PER_BYTE))
                      (fdiv (u32_to_double (bps_running_interval perf)) GST_PERF_MS_PER_S)
      in if bps_window_size perf = 0
         then Inr (perf\<lparr>mean_bps := gst_perf_update_average (byte_count_total perf) bps' mean,
                        bps := bps',
                        byte_count_total := byte_count_total perf + 1\<rparr>)
         else
           let buffer_current_idx =
                 (ucast (byte_count_total perf mod ucast (bps_window_size perf)) :: guint);
               i = unat buffer_current_idx
           in if length (bps_window_buffer perf) \<le> i then Inl OutOfBounds
              else Inr (perf\<lparr>bps_window_buffer := (bps_window_buffer perf)[i := bps'],
                             mean_bps := gst_perf_update_moving_average
                                           (ucast (bps_window_size perf)) mean bps'
                                           (bps_window_buffer perf ! i),
                             bps := bps',
                             byte_count_total := byte_count_total perf + 1\<rparr>))"

text \<open>The bitrate of the specification: the whole drained count, not truncated.\<close>

definition bps_spec :: "guint64 \<Rightarrow> guint \<Rightarrow> gdouble" where
  "bps_spec drained_bytes interval_ms =
     fdiv (u64_to_double (drained_bytes * 8))
          (fdiv (u32_to_double interval_ms) (int_to_double 1000))"

section \<open>The data path\<close>

text \<open>The arguments of the signal \<^verbatim>\<open>on-stats\<close>, in its order.\<close>

record on_stats =
  st_fps :: gdouble
  st_mean_fps :: gdouble
  st_bps :: gdouble
  st_mean_bps :: gdouble
  st_cpu_load :: guint32
  st_encoder_utilization :: guint
  st_session_count :: guint
  st_average_fps :: guint
  st_average_latency :: guint64
  st_gpu_utilization :: guint
  st_memory_used :: guint
  st_memory_free :: guint

text \<open>
  What one call of \<^verbatim>\<open>gst_perf_transform_ip\<close> takes from outside: the time
  \<^verbatim>\<open>gst_util_get_timestamp\<close> returns, the size of the buffer, and what the two
  counter sources would answer.
\<close>

record buffer_env =
  now :: GstClockTime
  buf_size :: guint64
  proc_stat :: "cpu_times option"
  nvidia_smi :: spawn_result

text \<open>
  The body of the \<^verbatim>\<open>if\<close> of \<^verbatim>\<open>gst_perf_transform_ip\<close>: the report.  The text of the
  info message is not modelled, the signal is.
\<close>

definition transform_ip_report ::
  "GstPerf \<Rightarrow> GstClockTime \<Rightarrow> GstClockTime \<Rightarrow> buffer_env \<Rightarrow> GstPerf \<times> on_stats" where
  "transform_ip_report perf time diff env =
     (let time_factor = fdiv (fmul (int_to_double 1) (u64_to_double diff))
                             (int_to_double (uint GST_SECOND));
          fps' = fdiv (u32_to_double (frame_count perf)) time_factor;
          perf1 = perf\<lparr>fps := gst_perf_update_average (frame_count_total perf) fps' (fps perf)\<rparr>;
          perf2 = perf1\<lparr>frame_count_total := frame_count_total perf1 + 1\<rparr>;
          perf3 = (gst_perf_reset perf2)\<lparr>prev_timestamp := time\<rparr>;
          (found, cpu_load, perf4) = gst_perf_cpu_get_load perf3 (proc_stat env);
          perf5 = (if gpu_stats_enabled perf4
                   then snd (gst_perf_get_gpu_stats perf4 (nvidia_smi env)) else perf4)
      in (perf5,
          \<lparr>st_fps = fps', st_mean_fps = fps perf5, st_bps = bps perf5,
           st_mean_bps = mean_bps perf5, st_cpu_load = cpu_load,
           st_encoder_utilization = encoder_utilization (gpu_stats perf5),
           st_session_count = session_count (gpu_stats perf5),
           st_average_fps = average_fps (gpu_stats perf5),
           st_average_latency = average_latency (gpu_stats perf5),
           st_gpu_utilization = gpu_utilization (gpu_stats perf5),
           st_memory_used = memory_used (gpu_stats perf5),
           st_memory_free = memory_free (gpu_stats perf5)\<rparr>))"

text \<open>
  \<^verbatim>\<open>gst_perf_transform_ip\<close>: the report when it is due, then the two counters, then
  the call of \<^verbatim>\<open>gst_perf_update_bps\<close>.  The result is the signal emitted (if any)
  and the state, or the fault of the sampler.
\<close>

definition gst_perf_transform_ip ::
  "GstPerf \<Rightarrow> buffer_env \<Rightarrow> on_stats option \<times> (fault + GstPerf)" where
  "gst_perf_transform_ip perf env =
     (let time = now env;
          diff = GST_CLOCK_DIFF (prev_timestamp perf) time;
          (perf1, emitted) =
            (if \<not> GST_CLOCK_TIME_IS_VALID (prev_timestamp perf)
                \<or> (GST_CLOCK_TIME_IS_VALID time \<and> GST_SECOND \<le> diff)
             then (let (p, r) = transform_ip_report perf time diff env in (p, Some r))
             else (perf, None));
          perf2 = perf1\<lparr>frame_count := frame_count perf1 + 1\<rparr>;
          perf3 = perf2\<lparr>byte_count := byte_count perf2 + buf_size env\<rparr>
      in (emitted, gst_perf_update_bps perf3))"

section \<open>A running session\<close>

text \<open>
  Between \<^verbatim>\<open>gst_perf_start\<close> and \<^verbatim>\<open>gst_perf_stop\<close> two things happen to the element:
  the timer calls \<^verbatim>\<open>gst_perf_update_bps\<close>, and a buffer passes through
  \<^verbatim>\<open>gst_perf_transform_ip\<close>.  A run takes whole calls one at a time.  The fields
  \<open>prev_timestamp\<close>, \<open>fps\<close>, \<open>frame_count\<close>, \<open>frame_count_total\<close>, the CPU readings and
  \<open>gpu_stats\<close> are touched by \<^verbatim>\<open>gst_perf_transform_ip\<close> only, so for them nothing
  is lost by that; a call of the timer that buffers interrupt is \<open>timer_call\<close> below.
\<close>

datatype event = Tick | Buffer buffer_env

fun step :: "GstPerf \<Rightarrow> event \<Rightarrow> on_stats option \<times> (fault + GstPerf)" where
  "step perf Tick = (None, gst_perf_update_bps perf)"
| "step perf (Buffer env) = gst_perf_transform_ip perf env"

fun emitted_list :: "on_stats option \<Rightarrow> on_stats list" where
  "emitted_list None = []"
| "emitted_list (Some r) = [r]"

text \<open>A run: the signals emitted, in order, and the last state (or the fault that ended it).\<close>

fun run :: "GstPerf \<Rightarrow> event list \<Rightarrow> on_stats list \<times> (fault + GstPerf)" where
  "run perf [] = ([], Inr perf)"
| "run perf (e # es) =
     (case step perf e of
        (r, Inl f) \<Rightarrow> (emitted_list r, Inl f)
      | (r, Inr perf') \<Rightarrow>
          (case run perf' es of (rs, res) \<Rightarrow> (emitted_list r @ rs, res)))"

text \<open>
  \<^verbatim>\<open>gst_perf_update_bps\<close> runs on two threads: the main loop calls it for the timer
  that \<^verbatim>\<open>gst_perf_start\<close> registers with \<^verbatim>\<open>g_timeout_add\<close>, and the streaming thread
  calls it at the end of \<^verbatim>\<open>gst_perf_transform_ip\<close>.  It reads and writes \<open>byte_count\<close>,
  \<open>mean_bps\<close> and \<open>bps\<close> under a mutex each, and releases each mutex at once.  Its last
  statement, \<^verbatim>\<open>perf->byte_count_total++\<close>, reads the field and writes it back one
  larger, under no mutex.  \<open>update_bps_until_read\<close> is the function up to and including
  that read (it returns the state and the value read), \<open>update_bps_write_back\<close> is the
  write that ends it.
\<close>

definition update_bps_until_read :: "GstPerf \<Rightarrow> fault + GstPerf \<times> guint64" where
  "update_bps_until_read perf0 =
     (let local_byte_count = (ucast (byte_count perf0) :: guint);
          perf = perf0\<lparr>byte_count := 0\<rparr>;
          mean = mean_bps perf;
          bps' = fdiv (u32_to_double (local_byte_count * GST_PERF_BITS_PER_BYTE))
                      (fdiv (u32_to_double (bps_running_interval perf)) GST_PERF_MS_PER_S)
      in if bps_window_size perf = 0
         then Inr (perf\<lparr>mean_bps := gst_perf_update_average (byte_count_total perf) bps' mean,
                        bps := bps'\<rparr>,
                   byte_count_total perf)
         else
           let buffer_current_idx =
                 (ucast (byte_count_total perf mod ucast (bps_window_size perf)) :: guint);
               i = unat buffer_current_idx
           in if length (bps_window_buffer perf) \<le> i then Inl OutOfBounds
              else Inr (perf\<lparr>bps_window_buffer := (bps_window_buffer perf)[i := bps'],
                             mean_bps := gst_perf_update_moving_average
                                           (ucast (bps_window_size perf)) mean bps'
                                           (bps_window_buffer perf ! i),
                             bps := bps'\<rparr>,
                        byte_count_total perf))"

definition update_bps_write_back :: "guint64 \<Rightarrow> GstPerf \<Rightarrow> GstPerf" where
  "update_bps_write_back v perf = perf\<lparr>byte_count_total := v + 1\<rparr>"

text \<open>
  A call of the timer that is between the read and the write of its last statement while
  the streaming thread passes the buffers \<open>envs\<close>: the state the write finds, with the
  value the call has read; and the state the call leaves.  With no buffer in between this
  is \<^verbatim>\<open>gst_perf_update_bps\<close>.
\<close>

definition interrupted_call ::
  "GstPerf \<Rightarrow> buffer_env list \<Rightarrow> fault + GstPerf \<times> guint64" where
  "interrupted_call perf envs =
     (case update_bps_until_read perf of
        Inl f \<Rightarrow> Inl f
      | Inr (perf1, v) \<Rightarrow>
          (case snd (run perf1 (map Buffer envs)) of
             Inl f \<Rightarrow> Inl f
           | Inr perf2 \<Rightarrow> Inr (perf2, v)))"

definition timer_call :: "GstPerf \<Rightarrow> buffer_env list \<Rightarrow> fault + GstPerf" where
  "timer_call perf envs =
     map_sum id (\<lambda>(perf2, v). update_bps_write_back v perf2) (interrupted_call perf envs)"

text \<open>
  The times of the buffers of a run, and the times of those that made the element emit a
  report.
\<close>

fun buffer_times :: "event list \<Rightarrow> GstClockTime list" where
  "buffer_times [] = []"
| "buffer_times (Tick # es) = buffer_times es"
| "buffer_times (Buffer env # es) = now env # buffer_times es"

fun report_times :: "GstPerf \<Rightarrow> event list \<Rightarrow> GstClockTime list" where
  "report_times perf [] = []"
| "report_times perf (Tick # es) =
     (case gst_perf_update_bps perf of Inl _ \<Rightarrow> [] | Inr perf' \<Rightarrow> report_times perf' es)"
| "report_times perf (Buffer env # es) =
     (case gst_perf_transform_ip perf env of
        (emitted, res) \<Rightarrow>
          (case emitted of None \<Rightarrow> [] | Some _ \<Rightarrow> [now env])
          @ (case res of Inl _ \<Rightarrow> [] | Inr perf' \<Rightarrow> report_times perf' es))"

text \<open>\<open>b\<close> is at least one second (in nanoseconds) after \<open>a\<close>.\<close>

definition one_second_apart :: "GstClockTime \<Rightarrow> GstClockTime \<Rightarrow> bool" where
  "one_second_apart a b = (a \<le> b \<and> 1000000000 \<le> unat b - unat a)"

text \<open>The query of the GPU counters succeeded: the test of \<^verbatim>\<open>gst_perf_get_gpu_stats\<close>.\<close>

definition query_ok :: "spawn_result \<Rightarrow> bool" where
  "query_ok sp = (spawn_ret sp \<and> spawn_exit_status sp = 0)"

fun event_query_ok :: "event \<Rightarrow> bool" where
  "event_query_ok Tick = False"
| "event_query_ok (Buffer env) = query_ok (nvidia_smi env)"

text \<open>
  The window is as long as its size says, which \<^verbatim>\<open>gst_perf_start\<close> establishes (the
  properties are taken as fixed while the session runs).
\<close>

definition window_ok :: "GstPerf \<Rightarrow> bool" where
  "window_ok perf =
     (if bps_window_size perf = 0 then True
      else length (bps_window_buffer perf) = unat (bps_window_size perf))"

text \<open>The seven GPU arguments of a signal, as a snapshot.\<close>

definition st_gpu_stats :: "on_stats \<Rightarrow> gpu_stats_t" where
  "st_gpu_stats r =
     \<lparr>encoder_utilization = st_encoder_utilization r, session_count = st_session_count r,
      average_fps = st_average_fps r, average_latency = st_average_latency r,
      gpu_utilization = st_gpu_utilization r, memory_used = st_memory_used r,
      memory_free = st_memory_free r\<rparr>"

text \<open>A buffer of \<open>n\<close> bytes at time \<open>t\<close>, with no CPU reading and a failing GPU query.\<close>

definition plain_buffer :: "GstClockTime \<Rightarrow> guint64 \<Rightarrow> buffer_env" where
  "plain_buffer t n =
     \<lparr>now = t, buf_size = n, proc_stat = None,
      nvidia_smi = \<lparr>spawn_ret = False, spawn_exit_status = 0, spawn_output = []\<rparr>\<rparr>"

text \<open>
  The condition of the \<^verbatim>\<open>if\<close> of \<^verbatim>\<open>gst_perf_transform_ip\<close>, with the macros unfolded:
  the report is due when no valid time is stored, or at least \<^verbatim>\<open>GST_SECOND\<close> lies
  between the stored time and a valid current time (the difference is unsigned).
\<close>

definition report_due :: "GstPerf \<Rightarrow> buffer_env \<Rightarrow> bool" where
  "report_due perf env =
     (if prev_timestamp perf = GST_CLOCK_TIME_NONE then True
      else now env \<noteq> GST_CLOCK_TIME_NONE \<and> GST_SECOND \<le> now env - prev_timestamp perf)"

section \<open>Example sessions\<close>

text \<open>A session just started with the default properties.\<close>

definition fresh_session :: GstPerf where
  "fresh_session = gst_perf_start gst_perf_init"





text \<open>A fresh session in which 512 MiB have been counted since the last sample.\<close>

definition big_sample :: GstPerf where
  "big_sample = fresh_session\<lparr>byte_count := 536870912\<rparr>"

text \<open>A session whose last report was at 5 ns.\<close>

definition one_second_in :: GstPerf where
  "one_second_in = fresh_session\<lparr>prev_timestamp := 5\<rparr>"

text \<open>A first reading of \<^verbatim>\<open>/proc/stat\<close>: 300 ticks since boot, 150 of them idle.\<close>

definition first_reading :: cpu_times where
  "first_reading =
     \<lparr>cpu_user = 100, cpu_nice = 0, cpu_sys = 50, cpu_idle = 150, cpu_iowait = 0,
      cpu_irq = 0, cpu_softirq = 0, cpu_steal = 0\<rparr>"

text \<open>
  A first reading of \<^verbatim>\<open>/proc/stat\<close> on a machine that has been busy without a pause:
  5000000 ticks since boot, none of them idle.
\<close>

definition busy_reading :: cpu_times where
  "busy_reading =
     \<lparr>cpu_user = 5000000, cpu_nice = 0, cpu_sys = 0, cpu_idle = 0, cpu_iowait = 0,
      cpu_irq = 0, cpu_softirq = 0, cpu_steal = 0\<rparr>"

text \<open>Two buffers of 100 bytes, one nanosecond apart.\<close>

definition two_buffers :: "buffer_env list" where
  "two_buffers = [plain_buffer 0 100, plain_buffer 1 100]"

text \<open>
  A session with the GPU counters enabled, an answer of \<^verbatim>\<open>nvidia-smi\<close> and the snapshot
  it parses to, a buffer that comes with this answer, and the session after that buffer.
\<close>

definition gpu_session :: GstPerf where
  "gpu_session = gst_perf_start (gst_perf_init\<lparr>gpu_stats_enabled := True\<rparr>)"

definition smi_answer :: spawn_result where
  "smi_answer =
     \<lparr>spawn_ret = True, spawn_exit_status = 0,
      spawn_output = ''5 %, 1, 30, 100, 7 %, 300 MiB, 7000 MiB\<newline>''\<rparr>"

definition smi_snapshot :: gpu_stats_t where
  "smi_snapshot =
     \<lparr>encoder_utilization = 5, session_count = 1, average_fps = 30, average_latency = 100,
      gpu_utilization = 7, memory_used = 300, memory_free = 7000\<rparr>"

definition smi_buffer :: "GstClockTime \<Rightarrow> guint64 \<Rightarrow> buffer_env" where
  "smi_buffer t n = (plain_buffer t n)\<lparr>nvidia_smi := smi_answer\<rparr>"

definition after_gpu_success :: GstPerf where
  "after_gpu_success =
     (case snd (gst_perf_transform_ip gpu_session (smi_buffer 0 100)) of
        Inr p \<Rightarrow> p | Inl _ \<Rightarrow> gpu_session)"

section \<open>Arithmetic facts\<close>

text \<open>
  The rounding scheme gives the percentage rounded to the nearest integer as long as
  \<open>1000 * busy\<close> fits 32 bits.
\<close>

lemma round_percent_exact:
  assumes "1000 * unat busy < 2 ^ 32"
  shows "unat (round_percent busy delta_total)
         = (1000 * unat busy div unat delta_total + 5) div 10"
proof -
  have m: "unat (1000 * busy) = 1000 * unat busy"
    using assms by (simp add: unat_word_ariths)
  have d: "unat (1000 * busy div delta_total) = 1000 * unat busy div unat delta_total"
    by (simp add: unat_div m)
  have le: "1000 * unat busy div unat delta_total \<le> 4294967000"
  proof -
    have "unat busy \<le> 4294967" using assms by simp
    then have "1000 * unat busy \<le> 4294967000" by simp
    moreover have "1000 * unat busy div unat delta_total \<le> 1000 * unat busy"
      by (rule div_le_dividend)
    ultimately show ?thesis by linarith
  qed
  have a: "unat (1000 * busy div delta_total + 5) = 1000 * unat busy div unat delta_total + 5"
    using le d by (simp add: unat_word_ariths)
  show ?thesis
    unfolding round_percent_def by (simp add: unat_div a)
qed

lemma compute_cpu_round_percent:
  "fst (gst_perf_compute_cpu self current_idle current_total) =
     (if current_total - prev_cpu_total self = 0 then 0
      else round_percent
             (current_total - prev_cpu_total self - (current_idle - prev_cpu_idle self))
             (current_total - prev_cpu_total self))"
  by (simp add: gst_perf_compute_cpu_def round_percent_def Let_def)

text \<open>
  The claimed load is what the code returns as long as the idle ticks are not more than
  the total ones and \<open>1000 * busy\<close> fits 32 bits.
\<close>

lemma compute_cpu_exact:
  assumes "unat (current_idle - prev_cpu_idle self) \<le> unat (current_total - prev_cpu_total self)"
    and "1000 * (unat (current_total - prev_cpu_total self)
                 - unat (current_idle - prev_cpu_idle self)) < 2 ^ 32"
  shows "unat (fst (gst_perf_compute_cpu self current_idle current_total)) =
           cpu_load_spec (unat (current_total - prev_cpu_total self)
                          - unat (current_idle - prev_cpu_idle self))
                         (unat (current_total - prev_cpu_total self))"
proof -
  let ?i = "current_idle - prev_cpu_idle self" and ?t = "current_total - prev_cpu_total self"
  have le: "?i \<le> ?t"
    using assms(1) by (simp add: word_le_nat_alt)
  have b: "unat (?t - ?i) = unat ?t - unat ?i"
    using le by (simp add: unat_sub)
  have z: "(?t = 0) = (unat ?t = 0)"
    by (simp add: unat_eq_0)
  show ?thesis
  proof (cases "?t = 0")
    case True
    then show ?thesis
      by (simp add: compute_cpu_round_percent cpu_load_spec_def)
  next
    case False
    have "1000 * unat (?t - ?i) < 2 ^ 32"
      using assms(2) by (simp only: b)
    from round_percent_exact [OF this, of ?t] False show ?thesis
      by (simp add: compute_cpu_round_percent cpu_load_spec_def b unat_eq_0)
  qed
qed

text \<open>Below 512 MiB the truncated count and its product with 8 are the true ones.\<close>

lemma ucast_small:
  assumes "unat (n :: 64 word) < 2 ^ 29"
  shows "uint ((ucast n :: 32 word) * 8) = uint (n * 8)"
proof -
  have "unat n < 2 ^ 32" using assms by simp
  then have a: "unat (ucast n :: 32 word) = unat n"
    by (simp add: unsigned_ucast_eq take_bit_nat_eq_self)
  have "unat ((ucast n :: 32 word) * 8) = unat n * 8"
    using assms a by (simp add: unat_word_ariths)
  moreover have "unat (n * 8) = unat n * 8"
    using assms by (simp add: unat_word_ariths)
  ultimately have "unat ((ucast n :: 32 word) * 8) = unat (n * 8)" by simp
  then show ?thesis by (simp only: uint_nat)
qed

lemma window_index:
  assumes "bps_window_size perf \<noteq> 0"
  shows "unat (ucast (byte_count_total perf mod ucast (bps_window_size perf)) :: guint)
         = unat (byte_count_total perf) mod unat (bps_window_size perf)"
proof -
  let ?ws = "bps_window_size perf" and ?n = "byte_count_total perf"
  have "unat ?ws < 2 ^ 32"
    using unsigned_less [of ?ws] by simp
  then have ws64: "unat ?ws < 2 ^ 64"
    by simp
  have w: "unat (ucast ?ws :: 64 word) = unat ?ws"
    using ws64 by (simp add: unsigned_ucast_eq take_bit_nat_eq_self)
  have m: "unat (?n mod ucast ?ws) = unat ?n mod unat ?ws"
    by (simp only: unat_mod w)
  have pos: "0 < unat ?ws"
    using assms by (simp add: unat_gt_0)
  have "unat ?n mod unat ?ws < unat ?ws"
    using pos by simp
  also have "\<dots> < 2 ^ 32"
    using unsigned_less [of ?ws] by simp
  finally have lt: "unat (?n mod ucast ?ws) < 2 ^ 32"
    by (simp only: m)
  have "unat (ucast (?n mod ucast ?ws) :: guint) = unat (?n mod ucast ?ws)"
    using lt by (simp add: unsigned_ucast_eq take_bit_nat_eq_self del: unat_mod)
  then show ?thesis
    by (simp only: m)
qed

lemma window_index_less:
  assumes "bps_window_size perf \<noteq> 0"
  shows "unat (ucast (byte_count_total perf mod ucast (bps_window_size perf)) :: guint)
         < unat (bps_window_size perf)"
proof -
  have "unat (byte_count_total perf) mod unat (bps_window_size perf)
        < unat (bps_window_size perf)"
    using assms by (simp add: unat_gt_0)
  then show ?thesis
    by (simp only: window_index [OF assms])
qed

lemma word_succ_less_add:
  fixes a :: guint64
  assumes "2 \<le> n" and "unat a + n < 2 ^ 64"
  shows "a + 1 < a + of_nat n"
proof -
  have n: "unat (of_nat n :: guint64) = n"
    using assms(2) by (simp add: unsigned_of_nat take_bit_nat_eq_self)
  have "unat a + unat (of_nat n :: guint64) < 2 ^ 64"
    using assms(2) by (simp only: n)
  then have s: "unat (a + of_nat n) = unat a + n"
    using n by (simp add: unat_add_lem [THEN iffD1])
  have "unat a + unat (1 :: guint64) < 2 ^ 64"
    using assms by simp
  then have o: "unat (a + 1) = unat a + 1"
    by (simp add: unat_add_lem [THEN iffD1])
  show ?thesis
    using assms(1) by (simp add: word_less_nat_alt s o)
qed

lemma GST_SECOND_unat: "unat GST_SECOND = 1000000000"
  by (simp add: GST_SECOND_def)

text \<open>
  The arithmetic against known binary64 values: 0.1, 0.1 + 0.2 and 1/3 (bit patterns
  3FB999999999999A, 3FD3333333333334, 3FD5555555555555), ties to even above \<open>2\<^sup>5\<^sup>3\<close>, the
  largest finite double and the overflow beyond it, the smallest subnormal numbers,
  division by zero.
\<close>

lemma binary64_examples:
  "round_double False 1 10 0 = Finite False 7205759403792794 (- 56)"
  "fadd (round_double False 1 10 0) (round_double False 2 10 0)
     = Finite False 5404319552844596 (- 54)"
  "fdiv (int_to_double 1) (int_to_double 3) = Finite False 6004799503160661 (- 54)"
  "int_to_double 9007199254740993 = Finite False 4503599627370496 1"
  "int_to_double 9007199254740995 = Finite False 4503599627370498 1"
  "round_double False 9007199254740991 1 971 = Finite False 9007199254740991 971"
  "round_double False 18014398509481983 2 971 = Infinity False"
  "round_double False 1 1 (- 1075) = Finite False 0 (- 1074)"
  "round_double False 3 1 (- 1075) = Finite False 2 (- 1074)"
  "fdiv (int_to_double 1) (int_to_double 0) = Infinity False"
  "fdiv (int_to_double 0) (int_to_double 0) = NaN"
  "fsub (int_to_double 5) (int_to_double 5) = Finite False 0 (- 1074)"
  by code_simp+

text \<open>\<open>bit_length n\<close> is the number of binary digits of a positive \<open>n\<close>.\<close>

lemma bit_length_bounds:
  "0 < n \<Longrightarrow> 1 \<le> bit_length n \<and> 2 ^ nat (bit_length n - 1) \<le> n \<and> n < 2 ^ nat (bit_length n)"
proof (induction n rule: bit_length.induct)
  case (1 n)
  show ?case
  proof (cases "n = 1")
    case True
    have "bit_length 0 = 0" by (simp add: bit_length.simps)
    then have "bit_length 1 = 1" by (simp add: bit_length.simps [of 1])
    then show ?thesis by (simp add: True)
  next
    case False
    with "1.prems" have pos: "0 < n div 2" by simp
    have nle: "\<not> n \<le> 0" using "1.prems" by simp
    from "1.IH" [OF nle pos]
    have b1: "1 \<le> bit_length (n div 2)"
      and lo: "2 ^ nat (bit_length (n div 2) - 1) \<le> n div 2"
      and hi: "n div 2 < 2 ^ nat (bit_length (n div 2))"
      by simp_all
    have bl: "bit_length n = 1 + bit_length (n div 2)"
      using nle by (simp add: bit_length.simps [of n])
    have e: "nat (bit_length (n div 2)) = Suc (nat (bit_length (n div 2) - 1))"
      using b1 by simp
    have "(2::int) ^ nat (bit_length (n div 2)) = 2 * 2 ^ nat (bit_length (n div 2) - 1)"
      by (simp add: e)
    then have lo': "2 ^ nat (bit_length (n div 2)) \<le> n"
      using lo by linarith
    have e2: "nat (1 + bit_length (n div 2)) = Suc (nat (bit_length (n div 2)))"
      using b1 by simp
    have hi': "n < 2 ^ nat (1 + bit_length (n div 2))"
      using hi by (simp add: e2)
    show ?thesis
      using b1 lo' hi' by (simp add: bl)
  qed
qed


lemma bit_length_le:
  assumes "0 < n" and "n < 2 ^ k"
  shows "bit_length n \<le> int k"
proof (rule ccontr)
  assume "\<not> bit_length n \<le> int k"
  then have "k \<le> nat (bit_length n - 1)"
    by simp
  then have "(2::int) ^ k \<le> 2 ^ nat (bit_length n - 1)"
    by (rule power_increasing) simp
  with bit_length_bounds [OF assms(1)] assms(2) show False
    by linarith
qed

text \<open>Integers below \<open>2\<^sup>5\<^sup>3\<close> in magnitude convert to double without rounding.\<close>

lemma int_to_double_exact:
  assumes "\<bar>i\<bar> < 2 ^ 53"
  shows "valof (int_to_double i) = Some (of_int i)"
proof (cases "i = 0")
  case True
  then show ?thesis
    by (simp add: int_to_double_def round_double_def)
next
  case False
  define n where "n = \<bar>i\<bar>"
  have pos: "0 < n" and lt: "n < 2 ^ 53"
    using False assms by (simp_all add: n_def)
  define b where "b = bit_length n"
  have b1: "1 \<le> b" and lo: "2 ^ nat (b - 1) \<le> n" and hi: "n < 2 ^ nat b"
    using bit_length_bounds [OF pos] by (simp_all add: b_def)
  have b53: "b \<le> 53"
    using bit_length_le [OF pos lt] by (simp add: b_def)
  have one: "bit_length 1 = 1"
    using bit_length.simps [of 0] by (simp add: bit_length.simps [of 1])
  define sh where "sh = nat (53 - b)"
  have m_lt: "n * 2 ^ sh < 2 ^ 53"
  proof -
    have "n * 2 ^ sh < 2 ^ nat b * 2 ^ sh"
      using hi by simp
    also have "\<dots> = 2 ^ (nat b + sh)"
      by (simp add: power_add)
    also have "nat b + sh = 53"
      using b1 b53 by (simp add: sh_def)
    finally show ?thesis .
  qed
  have r: "round_double (i < 0) n 1 0 = Finite (i < 0) (n * 2 ^ sh) (b - 53)"
  proof -
    have l: "bit_length n - bit_length 1 = b - 1"
      by (simp add: one b_def)
    have k: "max (b - 1 + 0 - 52) (- 1074) = b - 53"
      using b1 by simp
    have s: "0 - (b - 53) = 53 - b" "0 \<le> 53 - b"
      using b53 by simp_all
    have rn: "round_nearest_even (n * 2 ^ sh) 1 = n * 2 ^ sh"
      by (simp add: round_nearest_even_def)
    have ne: "n * 2 ^ sh \<noteq> 2 ^ 53"
      using m_lt by simp
    have kle: "\<not> 971 < b - 53"
      using b53 by simp
    show ?thesis
      using pos lo b1 b53 ne kle
      by (simp add: round_double_def Let_def l k s rn sh_def [symmetric])
  qed
  have v: "(of_int (n * 2 ^ sh) :: real) / 2 ^ nat (53 - b) = of_int n"
    by (simp add: sh_def)
  have "valof (Finite (i < 0) (n * 2 ^ sh) (b - 53)) = Some (of_int i)"
  proof (cases "b = 53")
    case True
    then show ?thesis
      by (simp add: sh_def n_def)
  next
    case False
    then have "\<not> 0 \<le> b - 53" using b53 by simp
    then show ?thesis
      using v by (simp add: n_def)
  qed
  then show ?thesis
    by (simp add: int_to_double_def r n_def [symmetric])
qed

lemma u32_to_double_exact: "valof (u32_to_double w) = Some (of_nat (unat w))"
proof -
  have "uint w < 2 ^ 32"
    using uint_bounded [of w] by simp
  then have "\<bar>uint w\<bar> < 2 ^ 53"
    by simp
  from int_to_double_exact [OF this]
  have "valof (u32_to_double w) = Some (of_int (uint w))"
    by (simp only: u32_to_double_def)
  moreover have "(of_int (uint w) :: real) = of_nat (unat w)"
    by (metis of_int_of_nat_eq uint_nat)
  ultimately show ?thesis
    by (simp only:)
qed

text \<open>Some doubles and quotients, computed.\<close>

lemma int_to_double_examples:
  "int_to_double 0 = Finite False 0 (- 1074)"
  "int_to_double 14 = Finite False 7881299347898368 (- 49)"
  "int_to_double 8000 = Finite False 8796093022208000 (- 40)"
  "int_to_double 4294967296 = Finite False 4503599627370496 (- 20)"
  by code_simp+

lemma valof_examples:
  "valof (int_to_double 0) = Some 0"
  "valof (int_to_double 14) = Some 14"
  "valof (int_to_double 8000) = Some 8000"
  "valof (int_to_double 4294967296) = Some 4294967296"
  by (simp_all add: int_to_double_examples)

lemma bps_of_nothing:
  "fdiv (u32_to_double 0) (fdiv (u32_to_double 1000) (int_to_double 1000)) = int_to_double 0"
  by code_simp

lemma bps_of_1000_bytes:
  "fdiv (u32_to_double 8000) (fdiv (u32_to_double 1000) (int_to_double 1000))
   = int_to_double 8000"
  by code_simp

lemma bps_spec_big: "bps_spec 536870912 1000 = int_to_double 4294967296"
  by code_simp

lemma moving_average_example:
  "gst_perf_update_moving_average 3 (int_to_double 10) (int_to_double 13) (int_to_double 1)
   = int_to_double 14"
  by code_simp


section \<open>What each function changes\<close>

lemma update_bps_frame:
  assumes "window_ok perf"
  shows "case gst_perf_update_bps perf of
           Inl _ \<Rightarrow> False
         | Inr perf' \<Rightarrow>
             byte_count perf' = 0
             \<and> byte_count_total perf' = byte_count_total perf + 1
             \<and> bps perf' = fdiv (u32_to_double (ucast (byte_count perf) * 8))
                               (fdiv (u32_to_double (bps_running_interval perf))
                                     (int_to_double 1000))
             \<and> frame_count perf' = frame_count perf
             \<and> frame_count_total perf' = frame_count_total perf
             \<and> prev_timestamp perf' = prev_timestamp perf
             \<and> gpu_stats perf' = gpu_stats perf
             \<and> gpu_stats_enabled perf' = gpu_stats_enabled perf
             \<and> window_ok perf'"
proof (cases "bps_window_size perf = 0")
  case True
  then show ?thesis
    by (simp add: gst_perf_update_bps_def Let_def window_ok_def GST_PERF_BITS_PER_BYTE_def
                  GST_PERF_MS_PER_S_def)
next
  case False
  then have len: "length (bps_window_buffer perf) = unat (bps_window_size perf)"
    using assms by (simp add: window_ok_def)
  show ?thesis
    using False len window_index_less [OF False]
    by (simp add: gst_perf_update_bps_def Let_def window_ok_def GST_PERF_BITS_PER_BYTE_def
                  GST_PERF_MS_PER_S_def)
qed

text \<open>With no window and less than 512 MiB counted, the sampler publishes the specified bitrate.\<close>

lemma update_bps_small:
  assumes "unat (byte_count perf) < 2 ^ 29" and "bps_window_size perf = 0"
  shows "map_sum id (\<lambda>p. (byte_count p, bps p)) (gst_perf_update_bps perf)
         = Inr (0, bps_spec (byte_count perf) (bps_running_interval perf))"
  using assms(2) ucast_small [OF assms(1)]
  by (simp add: gst_perf_update_bps_def Let_def bps_spec_def u32_to_double_def
                u64_to_double_def GST_PERF_BITS_PER_BYTE_def GST_PERF_MS_PER_S_def)

lemma compute_cpu_frame:
  "snd (gst_perf_compute_cpu perf i t) = perf\<lparr>prev_cpu_total := t, prev_cpu_idle := i\<rparr>"
  by (simp add: gst_perf_compute_cpu_def Let_def)

lemma cpu_get_load_frame:
  "snd (snd (gst_perf_cpu_get_load perf src))
   = (case src of None \<Rightarrow> perf
      | Some t \<Rightarrow> perf\<lparr>prev_cpu_total := cpu_user t + cpu_nice t + cpu_sys t + cpu_idle t
                                          + cpu_iowait t + cpu_irq t + cpu_softirq t + cpu_steal t,
                        prev_cpu_idle := cpu_idle t\<rparr>)"
  by (simp add: gst_perf_cpu_get_load_def Let_def compute_cpu_frame split: option.split prod.split)

lemma cpu_get_load_keeps:
  "frame_count (snd (snd (gst_perf_cpu_get_load perf src))) = frame_count perf
   \<and> frame_count_total (snd (snd (gst_perf_cpu_get_load perf src))) = frame_count_total perf
   \<and> prev_timestamp (snd (snd (gst_perf_cpu_get_load perf src))) = prev_timestamp perf
   \<and> byte_count (snd (snd (gst_perf_cpu_get_load perf src))) = byte_count perf
   \<and> byte_count_total (snd (snd (gst_perf_cpu_get_load perf src))) = byte_count_total perf
   \<and> bps_running_interval (snd (snd (gst_perf_cpu_get_load perf src)))
       = bps_running_interval perf
   \<and> bps_window_size (snd (snd (gst_perf_cpu_get_load perf src))) = bps_window_size perf
   \<and> bps_window_buffer (snd (snd (gst_perf_cpu_get_load perf src))) = bps_window_buffer perf
   \<and> gpu_stats_enabled (snd (snd (gst_perf_cpu_get_load perf src))) = gpu_stats_enabled perf
   \<and> gpu_stats (snd (snd (gst_perf_cpu_get_load perf src))) = gpu_stats perf"
  by (simp add: cpu_get_load_frame split: option.split)

lemma report_frame:
  "frame_count (fst (transform_ip_report perf time diff env)) = 0
   \<and> frame_count_total (fst (transform_ip_report perf time diff env))
       = frame_count_total perf + 1
   \<and> prev_timestamp (fst (transform_ip_report perf time diff env)) = time
   \<and> byte_count (fst (transform_ip_report perf time diff env)) = byte_count perf
   \<and> byte_count_total (fst (transform_ip_report perf time diff env)) = byte_count_total perf
   \<and> bps_running_interval (fst (transform_ip_report perf time diff env))
       = bps_running_interval perf
   \<and> bps_window_size (fst (transform_ip_report perf time diff env)) = bps_window_size perf
   \<and> bps_window_buffer (fst (transform_ip_report perf time diff env))
       = bps_window_buffer perf
   \<and> gpu_stats_enabled (fst (transform_ip_report perf time diff env))
       = gpu_stats_enabled perf
   \<and> st_gpu_stats (snd (transform_ip_report perf time diff env))
       = gpu_stats (fst (transform_ip_report perf time diff env))
   \<and> gpu_stats (fst (transform_ip_report perf time diff env)) =
        (if gpu_stats_enabled perf
         then gpu_stats (snd (gst_perf_get_gpu_stats perf (nvidia_smi env)))
         else gpu_stats perf)"
  by (simp add: transform_ip_report_def Let_def case_prod_unfold gst_perf_reset_def
                st_gpu_stats_def cpu_get_load_keeps gst_perf_get_gpu_stats_def)

lemma transform_ip_emitted:
  "fst (gst_perf_transform_ip perf env) =
     (if report_due perf env
      then Some (snd (transform_ip_report perf (now env) (now env - prev_timestamp perf) env))
      else None)"
  by (simp add: gst_perf_transform_ip_def Let_def case_prod_unfold report_due_def
                GST_CLOCK_TIME_IS_VALID_def GST_CLOCK_DIFF_def)

lemma transform_ip_state:
  "snd (gst_perf_transform_ip perf env) =
     gst_perf_update_bps
       ((if report_due perf env
         then fst (transform_ip_report perf (now env) (now env - prev_timestamp perf) env)
         else perf)
        \<lparr>frame_count :=
           (if report_due perf env then 1 else frame_count perf + 1),
         byte_count := byte_count perf + buf_size env\<rparr>)"
  by (simp add: gst_perf_transform_ip_def Let_def case_prod_unfold report_due_def
                GST_CLOCK_TIME_IS_VALID_def GST_CLOCK_DIFF_def report_frame)

lemma transform_ip_frame:
  assumes "window_ok perf"
  shows "case snd (gst_perf_transform_ip perf env) of
           Inl _ \<Rightarrow> False
         | Inr perf' \<Rightarrow>
             byte_count perf' = 0
             \<and> byte_count_total perf' = byte_count_total perf + 1
             \<and> bps perf' = fdiv (u32_to_double (ucast (byte_count perf + buf_size env) * 8))
                               (fdiv (u32_to_double (bps_running_interval perf))
                                     (int_to_double 1000))
             \<and> frame_count perf' = (if report_due perf env then 1 else frame_count perf + 1)
             \<and> frame_count_total perf' =
                 (if report_due perf env then frame_count_total perf + 1
                  else frame_count_total perf)
             \<and> prev_timestamp perf' =
                 (if report_due perf env then now env else prev_timestamp perf)
             \<and> gpu_stats_enabled perf' = gpu_stats_enabled perf
             \<and> gpu_stats perf' =
                 (if report_due perf env \<and> gpu_stats_enabled perf
                  then gpu_stats (snd (gst_perf_get_gpu_stats perf (nvidia_smi env)))
                  else gpu_stats perf)
             \<and> window_ok perf'"
proof -
  let ?mid = "(if report_due perf env
         then fst (transform_ip_report perf (now env) (now env - prev_timestamp perf) env)
         else perf)
        \<lparr>frame_count :=
           (if report_due perf env then 1 else frame_count perf + 1),
         byte_count := byte_count perf + buf_size env\<rparr>"
  have ok: "window_ok ?mid"
    using assms by (simp add: window_ok_def report_frame)
  show ?thesis
    using update_bps_frame [OF ok]
    by (cases "report_due perf env")
       (simp_all add: transform_ip_state report_frame split: sum.splits)
qed

lemma gpu_stats_loop_beyond: "7 \<le> i \<Longrightarrow> gpu_stats_loop i ts g = g"
  by (induction ts arbitrary: i g) (simp_all add: gpu_stats_store_def)

lemma gpu_stats_loop_seven:
  "gpu_stats_loop 0 (t0 # t1 # t2 # t3 # t4 # t5 # t6 # rest) g =
     \<lparr>encoder_utilization = ucast (word_of_int (atol t0) :: guint64),
      session_count = ucast (word_of_int (atol t1) :: guint64),
      average_fps = ucast (word_of_int (atol t2) :: guint64),
      average_latency = word_of_int (atol t3),
      gpu_utilization = ucast (word_of_int (atol t4) :: guint64),
      memory_used = ucast (word_of_int (atol t5) :: guint64),
      memory_free = ucast (word_of_int (atol t6) :: guint64)\<rparr>"
  by (cases g) (simp add: gpu_stats_store_def gpu_stats_loop_beyond)

lemma clear_gpu_stats: "gpu_stats (gst_perf_clear perf) = gpu_stats_zero"
  by (simp add: gst_perf_clear_def gst_perf_reset_def)

lemma start_window_ok: "window_ok (gst_perf_start perf)"
  by (simp add: gst_perf_start_def window_ok_def Let_def gst_perf_clear_def gst_perf_reset_def)

lemma start_fields:
  "byte_count_total (gst_perf_start perf) = 0" "frame_count_total (gst_perf_start perf) = 0"
  "byte_count (gst_perf_start perf) = 0" "frame_count (gst_perf_start perf) = 0"
  "gpu_stats (gst_perf_start perf) = gpu_stats_zero"
  "gpu_stats_enabled (gst_perf_start perf) = gpu_stats_enabled perf"
  "prev_timestamp (gst_perf_start perf) = GST_CLOCK_TIME_NONE"
  by (simp_all add: gst_perf_start_def Let_def gst_perf_clear_def gst_perf_reset_def)

text \<open>One event, and a whole run, of a session whose window is as long as its size.\<close>

lemma step_frame:
  assumes "window_ok perf"
  shows "case step perf ev of
           (em, Inl _) \<Rightarrow> False
         | (em, Inr perf') \<Rightarrow>
             window_ok perf'
             \<and> byte_count perf' = 0
             \<and> byte_count_total perf' = byte_count_total perf + 1
             \<and> frame_count_total perf' = frame_count_total perf + of_nat (length (emitted_list em))
             \<and> gpu_stats_enabled perf' = gpu_stats_enabled perf
             \<and> (if gpu_stats_enabled perf \<and> event_query_ok ev then True
                 else gpu_stats perf' = gpu_stats perf
                      \<and> list_all (\<lambda>r. st_gpu_stats r = gpu_stats perf) (emitted_list em))"
proof (cases ev)
  case Tick
  show ?thesis
    using update_bps_frame [OF assms]
    by (simp add: Tick split: sum.splits)
next
  case (Buffer env)
  show ?thesis
    using transform_ip_frame [OF assms, of env]
    by (cases "report_due perf env")
       (auto simp: Buffer transform_ip_emitted case_prod_unfold report_frame query_ok_def
                   gst_perf_get_gpu_stats_def
             split: sum.splits)
qed

lemma run_frame:
  assumes "window_ok perf"
    and "if gpu_stats_enabled perf then list_all (\<lambda>e. \<not> event_query_ok e) evs else True"
  shows "case run perf evs of
           (rs, Inl _) \<Rightarrow> False
         | (rs, Inr perf') \<Rightarrow>
             gpu_stats perf' = gpu_stats perf
             \<and> list_all (\<lambda>r. st_gpu_stats r = gpu_stats perf) rs"
  using assms
proof (induction evs arbitrary: perf)
  case Nil
  then show ?case by simp
next
  case (Cons e es)
  obtain em res where st: "step perf e = (em, res)"
    by (cases "step perf e")
  from step_frame [OF Cons.prems(1), of e] st
  obtain p where res: "res = Inr p" and ok: "window_ok p"
    and en: "gpu_stats_enabled p = gpu_stats_enabled perf"
    and g: "if gpu_stats_enabled perf \<and> event_query_ok e then True
            else gpu_stats p = gpu_stats perf
                 \<and> list_all (\<lambda>r. st_gpu_stats r = gpu_stats perf) (emitted_list em)"
    by (cases res) auto
  have ne: "\<not> (gpu_stats_enabled perf \<and> event_query_ok e)"
    using Cons.prems(2) by (auto split: if_splits)
  have g': "gpu_stats p = gpu_stats perf"
       "list_all (\<lambda>r. st_gpu_stats r = gpu_stats perf) (emitted_list em)"
    using g ne by (auto split: if_splits)
  have pre: "if gpu_stats_enabled p then list_all (\<lambda>e. \<not> event_query_ok e) es else True"
    using Cons.prems(2) by (auto simp: en split: if_splits)
  from Cons.IH [OF ok pre] show ?case
    by (auto simp: st res g' split: prod.splits sum.splits)
qed

text \<open>\<open>frame_count_total\<close> counts the reports.\<close>

lemma run_frame_total:
  assumes "window_ok perf"
  shows "case run perf evs of
           (rs, Inl _) \<Rightarrow> False
         | (rs, Inr perf') \<Rightarrow>
             window_ok perf'
             \<and> frame_count_total perf' = frame_count_total perf + of_nat (length rs)"
  using assms
proof (induction evs arbitrary: perf)
  case Nil
  then show ?case by simp
next
  case (Cons e es)
  obtain em res where st: "step perf e = (em, res)"
    by (cases "step perf e")
  from step_frame [OF Cons.prems(1), of e] st
  obtain p where res: "res = Inr p" and ok: "window_ok p"
    and ft: "frame_count_total p = frame_count_total perf + of_nat (length (emitted_list em))"
    by (cases res) auto
  from Cons.IH [OF ok] show ?case
    by (auto simp: st res ft algebra_simps split: prod.splits sum.splits)
qed

text \<open>
  Buffers that pass one after the other, with no call of the timer meanwhile: each counts
  one sample.
\<close>

lemma buffers_counted:
  assumes "window_ok perf"
  shows "case snd (run perf (map Buffer envs)) of
           Inl _ \<Rightarrow> False
         | Inr perf' \<Rightarrow>
             window_ok perf'
             \<and> byte_count_total perf' = byte_count_total perf + of_nat (length envs)"
  using assms
proof (induction envs arbitrary: perf)
  case Nil
  then show ?case by simp
next
  case (Cons env envs)
  from transform_ip_frame [OF Cons.prems(1), of env]
  obtain p where res: "snd (gst_perf_transform_ip perf env) = Inr p" and ok: "window_ok p"
    and bt: "byte_count_total p = byte_count_total perf + 1"
    by (cases "snd (gst_perf_transform_ip perf env)") auto
  from Cons.IH [OF ok] show ?case
    by (auto simp: res bt algebra_simps case_prod_unfold split: prod.splits sum.splits)
qed

text \<open>The two pieces of the sampler, and a call of the timer that nothing interrupts.\<close>

lemma update_bps_pieces:
  "gst_perf_update_bps perf =
     map_sum id (\<lambda>(p, v). update_bps_write_back v p) (update_bps_until_read perf)"
  by (simp add: gst_perf_update_bps_def update_bps_until_read_def update_bps_write_back_def
                Let_def)

lemma timer_call_alone: "timer_call perf [] = gst_perf_update_bps perf"
  by (cases "update_bps_until_read perf")
     (auto simp: timer_call_def interrupted_call_def update_bps_pieces)

lemma until_read_frame:
  assumes "window_ok perf"
  shows "case update_bps_until_read perf of
           Inl _ \<Rightarrow> False
         | Inr (perf', v) \<Rightarrow>
             v = byte_count_total perf
             \<and> byte_count_total perf' = byte_count_total perf
             \<and> byte_count perf' = 0
             \<and> window_ok perf'"
proof (cases "bps_window_size perf = 0")
  case True
  then show ?thesis
    by (simp add: update_bps_until_read_def Let_def window_ok_def)
next
  case False
  then have len: "length (bps_window_buffer perf) = unat (bps_window_size perf)"
    using assms by (simp add: window_ok_def)
  show ?thesis
    using False len window_index_less [OF False]
    by (simp add: update_bps_until_read_def Let_def window_ok_def)
qed

text \<open>
  A call of the timer interrupted by buffers: the write finds as many samples more as
  buffers have passed.
\<close>

lemma interrupted_call_frame:
  assumes "window_ok perf"
  shows "case interrupted_call perf envs of
           Inl _ \<Rightarrow> False
         | Inr (perf2, v) \<Rightarrow>
             v = byte_count_total perf
             \<and> byte_count_total perf2 = byte_count_total perf + of_nat (length envs)"
proof -
  from until_read_frame [OF assms]
  obtain p1 where r: "update_bps_until_read perf = Inr (p1, byte_count_total perf)"
    and t: "byte_count_total p1 = byte_count_total perf" and ok: "window_ok p1"
    by (cases "update_bps_until_read perf") auto
  from buffers_counted [OF ok, of envs] show ?thesis
    by (auto simp: interrupted_call_def r t split: sum.splits)
qed

text \<open>Reports of a run are at least one second apart when the clock does not go back.\<close>

lemma one_second_apart_trans:
  "one_second_apart a b \<Longrightarrow> one_second_apart b c \<Longrightarrow> one_second_apart a c"
  by (auto simp: one_second_apart_def word_le_nat_alt)

lemma report_due_apart:
  assumes "report_due perf env" and "prev_timestamp perf \<noteq> GST_CLOCK_TIME_NONE"
    and "prev_timestamp perf \<le> now env"
  shows "one_second_apart (prev_timestamp perf) (now env)"
proof -
  have "GST_SECOND \<le> now env - prev_timestamp perf"
    using assms(1,2) by (simp add: report_due_def)
  then have "unat GST_SECOND \<le> unat (now env - prev_timestamp perf)"
    by (simp add: word_le_nat_alt)
  moreover have "unat (now env - prev_timestamp perf) = unat (now env) - unat (prev_timestamp perf)"
    using assms(3) by (rule unat_sub)
  ultimately show ?thesis
    using assms(3) by (simp add: GST_SECOND_unat one_second_apart_def)
qed

lemma report_times_apart:
  assumes "window_ok perf"
    and "sorted (buffer_times evs)"
    and "list_all (\<lambda>t. t \<noteq> GST_CLOCK_TIME_NONE) (buffer_times evs)"
    and "prev_timestamp perf \<noteq> GST_CLOCK_TIME_NONE \<Longrightarrow>
           list_all (\<lambda>t. prev_timestamp perf \<le> t) (buffer_times evs)"
  shows "successively one_second_apart (report_times perf evs)
         \<and> (prev_timestamp perf \<noteq> GST_CLOCK_TIME_NONE \<longrightarrow>
              list_all (one_second_apart (prev_timestamp perf)) (report_times perf evs))"
  using assms
proof (induction evs arbitrary: perf)
  case Nil
  then show ?case by simp
next
  case (Cons e es)
  show ?case
  proof (cases e)
    case Tick
    from update_bps_frame [OF Cons.prems(1)]
    obtain p where p: "gst_perf_update_bps perf = Inr p" and ok: "window_ok p"
      and pt: "prev_timestamp p = prev_timestamp perf"
      by (cases "gst_perf_update_bps perf") auto
    have "successively one_second_apart (report_times p es)
         \<and> (prev_timestamp p \<noteq> GST_CLOCK_TIME_NONE \<longrightarrow>
              list_all (one_second_apart (prev_timestamp p)) (report_times p es))"
      using Cons.prems by (intro Cons.IH ok) (simp_all add: Tick pt)
    then show ?thesis
      by (simp add: Tick p pt)
  next
    case (Buffer env)
    from transform_ip_frame [OF Cons.prems(1), of env]
    obtain p where p: "snd (gst_perf_transform_ip perf env) = Inr p" and ok: "window_ok p"
      and pt: "prev_timestamp p = (if report_due perf env then now env else prev_timestamp perf)"
      by (cases "snd (gst_perf_transform_ip perf env)") auto
    have srt: "sorted (buffer_times es)" and ge: "list_all (\<lambda>t. now env \<le> t) (buffer_times es)"
      and valid: "now env \<noteq> GST_CLOCK_TIME_NONE"
                 "list_all (\<lambda>t. t \<noteq> GST_CLOCK_TIME_NONE) (buffer_times es)"
      using Cons.prems(2,3) by (simp_all add: Buffer list_all_iff)
    show ?thesis
    proof (cases "report_due perf env")
      case True
      have pt': "prev_timestamp p = now env"
        using pt True by simp
      have ih: "successively one_second_apart (report_times p es)
         \<and> list_all (one_second_apart (now env)) (report_times p es)"
        using Cons.IH [OF ok srt valid(2)] ge valid(1) by (simp add: pt')
      have rt: "report_times perf (e # es) = now env # report_times p es"
        using True p by (simp add: Buffer case_prod_unfold transform_ip_emitted)
      have s: "successively one_second_apart (now env # report_times p es)"
        using ih by (cases "report_times p es") simp_all
      have "list_all (one_second_apart (prev_timestamp perf)) (now env # report_times p es)"
        if v: "prev_timestamp perf \<noteq> GST_CLOCK_TIME_NONE"
      proof -
        have "prev_timestamp perf \<le> now env"
          using Cons.prems(4) [OF v] by (simp add: Buffer)
        then have a: "one_second_apart (prev_timestamp perf) (now env)"
          using True v by (intro report_due_apart)
        then show ?thesis
          using ih by (auto simp: list_all_iff intro: one_second_apart_trans)
      qed
      then show ?thesis
        using s by (simp add: rt)
    next
      case False
      then have v: "prev_timestamp perf \<noteq> GST_CLOCK_TIME_NONE"
        by (auto simp: report_due_def)
      have pt': "prev_timestamp p = prev_timestamp perf"
        using pt False by simp
      have "list_all (\<lambda>t. prev_timestamp perf \<le> t) (buffer_times es)"
        using Cons.prems(4) [OF v] by (simp add: Buffer)
      then have ih: "successively one_second_apart (report_times p es)
         \<and> list_all (one_second_apart (prev_timestamp perf)) (report_times p es)"
        using Cons.IH [OF ok srt valid(2)] v by (simp add: pt')
      have rt: "report_times perf (e # es) = report_times p es"
        using False p by (simp add: Buffer case_prod_unfold transform_ip_emitted)
      show ?thesis
        using ih by (simp add: rt)
    qed
  qed
qed

lemma report_times_buffer:
  assumes "window_ok perf"
  shows "\<exists>p. window_ok p
           \<and> prev_timestamp p = (if report_due perf env then now env else prev_timestamp perf)
           \<and> (\<forall>es. report_times perf (Buffer env # es)
                 = (if report_due perf env then [now env] else []) @ report_times p es)"
proof -
  from transform_ip_frame [OF assms, of env]
  obtain p where p: "snd (gst_perf_transform_ip perf env) = Inr p" and ok: "window_ok p"
    and pt: "prev_timestamp p = (if report_due perf env then now env else prev_timestamp perf)"
    by (cases "snd (gst_perf_transform_ip perf env)") auto
  have "report_times perf (Buffer env # es)
           = (if report_due perf env then [now env] else []) @ report_times p es" for es
    using p by (simp add: case_prod_unfold transform_ip_emitted)
  with ok pt show ?thesis
    by blast
qed

lemma report_times_due:
  assumes "window_ok perf" and "report_due perf env"
  shows "\<exists>p. window_ok p \<and> prev_timestamp p = now env
           \<and> (\<forall>es. report_times perf (Buffer env # es) = now env # report_times p es)"
  using report_times_buffer [OF assms(1), of env] assms(2) by simp

lemma report_times_not_due:
  assumes "window_ok perf" and "\<not> report_due perf env"
  shows "\<exists>p. window_ok p \<and> prev_timestamp p = prev_timestamp perf
           \<and> (\<forall>es. report_times perf (Buffer env # es) = report_times p es)"
  using report_times_buffer [OF assms(1), of env] assms(2) by simp

lemma plain_buffer_now: "now (plain_buffer t n) = t"
  by (simp add: plain_buffer_def)

section \<open>Facts about the example sessions\<close>

lemma fresh_session_window_ok: "window_ok fresh_session"
  by (simp add: window_ok_def fresh_session_def gst_perf_start_def gst_perf_init_def
                gst_perf_clear_def gst_perf_reset_def)

lemma fresh_session_fields:
  "byte_count fresh_session = 0" "byte_count_total fresh_session = 0"
  "frame_count fresh_session = 0" "frame_count_total fresh_session = 0"
  "bps_running_interval fresh_session = 1000"
  "prev_timestamp fresh_session = GST_CLOCK_TIME_NONE"
  by (simp_all add: fresh_session_def gst_perf_start_def gst_perf_init_def
                    gst_perf_clear_def gst_perf_reset_def)

text \<open>One buffer of 512 MiB into a fresh session: the bitrate published is 0.\<close>

lemma big_buffer_bps:
  "map_sum id bps (snd (gst_perf_transform_ip fresh_session (plain_buffer 0 536870912)))
   = Inr (int_to_double 0)"
proof -
  have tr: "(4294967296 :: guint) = 0"
    by simp
  show ?thesis
    using transform_ip_frame [OF fresh_session_window_ok, of "plain_buffer 0 536870912"]
    by (simp add: fresh_session_fields plain_buffer_def tr bps_of_nothing split: sum.splits)
qed





text \<open>Three buffers half a second apart: the first and the third report.\<close>

lemma three_buffers:
  "report_times fresh_session
     [Buffer (plain_buffer 0 100), Buffer (plain_buffer 500000000 100),
      Buffer (plain_buffer 1000000000 100)] = [0, 1000000000]"
proof -
  have d1: "report_due fresh_session (plain_buffer 0 100)"
    by (simp add: report_due_def fresh_session_fields)
  from report_times_due [OF fresh_session_window_ok d1]
  obtain p1 where p1: "window_ok p1" "prev_timestamp p1 = now (plain_buffer 0 100)"
    and r1: "\<And>es. report_times fresh_session (Buffer (plain_buffer 0 100) # es)
               = now (plain_buffer 0 100) # report_times p1 es"
    by blast
  have d2: "\<not> report_due p1 (plain_buffer 500000000 100)"
    by (simp add: report_due_def p1 plain_buffer_now GST_CLOCK_TIME_NONE_def GST_SECOND_def)
  from report_times_not_due [OF p1(1) d2]
  obtain p2 where p2: "window_ok p2" "prev_timestamp p2 = prev_timestamp p1"
    and r2: "\<And>es. report_times p1 (Buffer (plain_buffer 500000000 100) # es)
               = report_times p2 es"
    by blast
  have d3: "report_due p2 (plain_buffer 1000000000 100)"
    by (simp add: report_due_def p1 p2 plain_buffer_now GST_CLOCK_TIME_NONE_def GST_SECOND_def)
  from report_times_due [OF p2(1) d3]
  obtain p3 where r3: "\<And>es. report_times p2 (Buffer (plain_buffer 1000000000 100) # es)
               = now (plain_buffer 1000000000 100) # report_times p3 es"
    by blast
  show ?thesis
    by (simp only: r1 r2 r3 plain_buffer_now report_times.simps(1))
qed

lemma smi_tokens:
  "strtok_tokens (c_string (spawn_output smi_answer)) =
     [''5 %'', '' 1'', '' 30'', '' 100'', '' 7 %'', '' 300 MiB'', '' 7000 MiB\<newline>'']"
  by code_simp

lemma smi_numbers:
  "atol ''5 %'' = 5" "atol '' 1'' = 1" "atol '' 30'' = 30" "atol '' 100'' = 100"
  "atol '' 7 %'' = 7" "atol '' 300 MiB'' = 300" "atol '' 7000 MiB\<newline>'' = 7000"
  by code_simp+

lemma smi_parsed:
  "gpu_stats_loop 0 (strtok_tokens (c_string (spawn_output smi_answer))) g = smi_snapshot"
  by (simp only: smi_tokens gpu_stats_loop_seven smi_numbers) (simp add: smi_snapshot_def)

lemma gpu_session_facts:
  "window_ok gpu_session" "gpu_stats_enabled gpu_session"
  "prev_timestamp gpu_session = GST_CLOCK_TIME_NONE" "gpu_stats gpu_session = gpu_stats_zero"
  by (simp_all add: window_ok_def gpu_session_def gst_perf_start_def gst_perf_init_def
                    gst_perf_clear_def gst_perf_reset_def)

section \<open>The claims\<close>

text \<open>
  C1.  The claim: for every pair of readings the load is 0 when the difference of the
  totals is 0 and otherwise \<open>(1000 * busy / delta_total + 5) / 10\<close> over the integers,
  with \<open>busy = delta_total - delta_idle\<close>.  \<^verbatim>\<open>gst_perf_compute_cpu\<close> stores the current
  readings as claimed, and it returns the claimed load as long as the idle difference is
  not more than the total difference and \<open>1000 * busy\<close> is below \<open>2\<^sup>3\<^sup>2\<close>.  But it computes
  in \<^verbatim>\<open>guint32\<close>, and beyond that the product wraps: for the first readings of a session,
  5000000 ticks and none of them idle, it returns 14 where the claim has 100, and the
  first report carries 14.
\<close>

theorem C1_compute_cpu_overflows:
  "snd (gst_perf_compute_cpu self current_idle current_total) =
     self\<lparr>prev_cpu_total := current_total, prev_cpu_idle := current_idle\<rparr>
   \<and> (unat (current_idle - prev_cpu_idle self) \<le> unat (current_total - prev_cpu_total self)
        \<and> 1000 * (unat (current_total - prev_cpu_total self)
                    - unat (current_idle - prev_cpu_idle self)) < 2 ^ 32
       \<longrightarrow> unat (fst (gst_perf_compute_cpu self current_idle current_total)) =
             cpu_load_spec (unat (current_total - prev_cpu_total self)
                            - unat (current_idle - prev_cpu_idle self))
                           (unat (current_total - prev_cpu_total self)))
   \<and> prev_cpu_idle fresh_session = 0 \<and> prev_cpu_total fresh_session = 0
   \<and> fst (gst_perf_compute_cpu fresh_session 0 5000000) = 14
   \<and> cpu_load_spec (5000000 - 0) 5000000 = 100
   \<and> map_option st_cpu_load
        (fst (gst_perf_transform_ip fresh_session
               ((plain_buffer 0 100)\<lparr>proc_stat := Some busy_reading\<rparr>))) = Some 14"
proof -
  have a: "fst (gst_perf_compute_cpu fresh_session 0 5000000) = 14"
    by (simp add: gst_perf_compute_cpu_def fresh_session_def gst_perf_start_def
                  gst_perf_init_def gst_perf_clear_def gst_perf_reset_def Let_def)
  have p: "prev_cpu_idle fresh_session = 0 \<and> prev_cpu_total fresh_session = 0"
    by (simp add: fresh_session_def gst_perf_start_def gst_perf_init_def gst_perf_clear_def
                  gst_perf_reset_def Let_def)
  have due: "report_due fresh_session ((plain_buffer 0 100)\<lparr>proc_stat := Some busy_reading\<rparr>)"
    by (simp add: report_due_def fresh_session_fields)
  have r: "st_cpu_load (snd (transform_ip_report fresh_session t d
          ((plain_buffer 0 100)\<lparr>proc_stat := Some busy_reading\<rparr>))) = 14" for t d
    by (simp add: transform_ip_report_def Let_def case_prod_unfold gst_perf_cpu_get_load_def
                  gst_perf_compute_cpu_def plain_buffer_def busy_reading_def
                  fresh_session_def gst_perf_start_def gst_perf_init_def gst_perf_clear_def
                  gst_perf_reset_def)
  have s: "cpu_load_spec (5000000 - 0) 5000000 = 100"
    by (simp add: cpu_load_spec_def)
  show ?thesis
    using a p due r s compute_cpu_exact [of current_idle self current_total]
    by (simp add: transform_ip_emitted compute_cpu_frame)
qed

text \<open>
  The examples of the claim are in the range where the code agrees with it: the readings
  (150, 300) after (100, 200) give 50, a busy share of 333 in 1000 gives 33 and one of
  335 in 1000 gives 34.
\<close>

theorem C1_compute_cpu_overflows_witness:
  "unat (fst (gst_perf_compute_cpu (fresh_session\<lparr>prev_cpu_idle := 100, prev_cpu_total := 200\<rparr>)
                150 300)) = 50
   \<and> cpu_load_spec (100 - 50) 100 = 50
   \<and> unat (fst (gst_perf_compute_cpu fresh_session 667 1000)) = 33
   \<and> cpu_load_spec 333 1000 = 33
   \<and> unat (fst (gst_perf_compute_cpu fresh_session 665 1000)) = 34
   \<and> cpu_load_spec 335 1000 = 34"
proof -
  have p: "prev_cpu_idle fresh_session = 0 \<and> prev_cpu_total fresh_session = 0"
    by (simp add: fresh_session_def gst_perf_start_def gst_perf_init_def gst_perf_clear_def
                  gst_perf_reset_def Let_def)
  have a: "unat (fst (gst_perf_compute_cpu
                  (fresh_session\<lparr>prev_cpu_idle := 100, prev_cpu_total := 200\<rparr>) 150 300)) = 50"
    using C1_compute_cpu_overflows
            [of "fresh_session\<lparr>prev_cpu_idle := 100, prev_cpu_total := 200\<rparr>" 150 300]
    by (simp add: cpu_load_spec_def)
  have b: "unat (fst (gst_perf_compute_cpu fresh_session 667 1000)) = 33"
    using C1_compute_cpu_overflows [of fresh_session 667 1000]
    by (simp add: cpu_load_spec_def p)
  have c: "unat (fst (gst_perf_compute_cpu fresh_session 665 1000)) = 34"
    using C1_compute_cpu_overflows [of fresh_session 665 1000]
    by (simp add: cpu_load_spec_def p)
  show ?thesis
    using a b c by (simp add: cpu_load_spec_def)
qed

text \<open>
  C2.  \<^verbatim>\<open>gst_perf_update_average\<close> returns 0 when the count is 0 and otherwise
  \<open>((sample_count - 1) * old_average + new_sample) / sample_count\<close>, the difference taken
  in \<^verbatim>\<open>guint64\<close> and the rest in double.
\<close>

theorem C2_update_average:
  "gst_perf_update_average sample_count new_sample old_average =
     (if sample_count = 0 then int_to_double 0
      else fdiv (fadd (fmul (u64_to_double (sample_count - 1)) old_average) new_sample)
                (u64_to_double sample_count))
   \<and> gst_perf_update_average 0 x y = int_to_double 0
   \<and> valof (int_to_double 0) = Some 0"
  by (simp add: gst_perf_update_average_def valof_examples)

text \<open>
  C3.  \<^verbatim>\<open>gst_perf_update_moving_average\<close> returns 0 when the window size is 0 and otherwise
  \<open>(old_average * window_size - evicted_sample + new_sample) / window_size\<close> in double.
  For a window of 3, an old average of 10, a new sample of 13 and an evicted sample of 1
  this is the double 14.
\<close>

theorem C3_update_moving_average:
  "gst_perf_update_moving_average window_size old_average new_sample evicted_sample =
     (if window_size = 0 then int_to_double 0
      else fdiv (fadd (fsub (fmul old_average (u64_to_double window_size)) evicted_sample)
                      new_sample)
                (u64_to_double window_size))
   \<and> gst_perf_update_moving_average 3 (int_to_double 10) (int_to_double 13) (int_to_double 1)
       = int_to_double 14
   \<and> valof (int_to_double 14) = Some 14"
  using moving_average_example
  by (simp add: gst_perf_update_moving_average_def valof_examples)

text \<open>
  C4.  The claim: each call of the sampler drains the byte counter and publishes
  \<open>drained_bytes * 8 / (interval_ms / 1000)\<close>.  The counter is drained, but the count
  passes through a \<^verbatim>\<open>guint\<close>: with \<open>2\<^sup>2\<^sup>9\<close> bytes counted and an interval of 1000 ms the
  sampler publishes 0 bits per second, where the claim has 4294967296.
\<close>

theorem C4_update_bps_truncates:
  "map_sum id byte_count (gst_perf_update_bps big_sample) = Inr 0
   \<and> map_sum id bps (gst_perf_update_bps big_sample) = Inr (int_to_double 0)
   \<and> bps_spec (byte_count big_sample) (bps_running_interval big_sample)
       = int_to_double 4294967296
   \<and> valof (int_to_double 0) = Some 0
   \<and> valof (int_to_double 4294967296) = Some 4294967296"
proof -
  have ok: "window_ok big_sample"
    using fresh_session_window_ok by (simp add: window_ok_def big_sample_def)
  have bc: "byte_count big_sample = 536870912"
    by (simp add: big_sample_def)
  have iv: "bps_running_interval big_sample = 1000"
    by (simp add: big_sample_def fresh_session_fields)
  have tr: "(4294967296 :: guint) = 0"
    by simp
  show ?thesis
    using update_bps_frame [OF ok]
    by (simp add: bc iv tr bps_of_nothing bps_spec_big valof_examples split: sum.splits)
qed



text \<open>
  C6, as amended.  A buffer makes the element emit a report exactly when no valid time is
  stored, or the current time is valid and at least one second (in nanoseconds, the
  difference taken modulo \<open>2\<^sup>6\<^sup>4\<close>) after the stored time.  The stored time is that of
  the last report, and starting the session clears it: the first buffer of a session always
  emits a report.  In a run of a started session whose buffers come with valid times that
  do not go back, each report is at least one second after the one before it.
\<close>

theorem C6_report_cadence:
  "(fst (gst_perf_transform_ip perf env) \<noteq> None) =
     (prev_timestamp perf = GST_CLOCK_TIME_NONE
      \<or> (now env \<noteq> GST_CLOCK_TIME_NONE \<and> GST_SECOND \<le> now env - prev_timestamp perf))
   \<and> (fst (gst_perf_transform_ip perf env) \<noteq> None
        \<and> prev_timestamp perf \<noteq> GST_CLOCK_TIME_NONE \<and> prev_timestamp perf \<le> now env
        \<longrightarrow> 1000000000 \<le> unat (now env) - unat (prev_timestamp perf))
   \<and> (window_ok perf \<longrightarrow>
        (case snd (gst_perf_transform_ip perf env) of
           Inl _ \<Rightarrow> False
         | Inr perf' \<Rightarrow>
             prev_timestamp perf' =
               (if fst (gst_perf_transform_ip perf env) = None then prev_timestamp perf
                else now env)))
   \<and> prev_timestamp (gst_perf_start elem) = GST_CLOCK_TIME_NONE
   \<and> (sorted (buffer_times evs)
        \<and> list_all (\<lambda>t. t \<noteq> GST_CLOCK_TIME_NONE) (buffer_times evs)
        \<longrightarrow> successively one_second_apart (report_times (gst_perf_start elem) evs))"
proof -
  have em: "(fst (gst_perf_transform_ip perf env) \<noteq> None) = report_due perf env"
    by (simp add: transform_ip_emitted)
  have a: "report_due perf env =
     (prev_timestamp perf = GST_CLOCK_TIME_NONE
      \<or> (now env \<noteq> GST_CLOCK_TIME_NONE \<and> GST_SECOND \<le> now env - prev_timestamp perf))"
    by (simp add: report_due_def)
  have b: "1000000000 \<le> unat (now env) - unat (prev_timestamp perf)"
    if due: "report_due perf env" and valid: "prev_timestamp perf \<noteq> GST_CLOCK_TIME_NONE"
      and le: "prev_timestamp perf \<le> now env"
    using report_due_apart [OF that] by (simp add: one_second_apart_def)
  have c: "case snd (gst_perf_transform_ip perf env) of
           Inl _ \<Rightarrow> False
         | Inr perf' \<Rightarrow>
             prev_timestamp perf' =
               (if fst (gst_perf_transform_ip perf env) = None then prev_timestamp perf
                else now env)" if "window_ok perf"
    using transform_ip_frame [OF that, of env]
    by (cases "report_due perf env") (simp_all add: transform_ip_emitted split: sum.splits)
  have d: "prev_timestamp (gst_perf_start elem) = GST_CLOCK_TIME_NONE"
    by (simp add: start_fields)
  have e: "successively one_second_apart (report_times (gst_perf_start elem) evs)"
    if "sorted (buffer_times evs)"
      and "list_all (\<lambda>t. t \<noteq> GST_CLOCK_TIME_NONE) (buffer_times evs)"
    using report_times_apart [OF start_window_ok [of elem] that] by (simp add: d)
  show ?thesis
    using a b c d e by (simp only: em) blast
qed

text \<open>
  After a report at 5 ns, a buffer at 1000000004 ns emits nothing and leaves the stored
  time, one at 1000000005 ns emits a report and stores its time.  Of three buffers half a
  second apart in a fresh session, the first and the third emit a report.
\<close>

theorem C6_report_cadence_witness:
  "fst (gst_perf_transform_ip one_second_in (plain_buffer 1000000004 100)) = None
   \<and> fst (gst_perf_transform_ip one_second_in (plain_buffer 1000000005 100)) \<noteq> None
   \<and> map_sum id prev_timestamp
        (snd (gst_perf_transform_ip one_second_in (plain_buffer 1000000004 100))) = Inr 5
   \<and> map_sum id prev_timestamp
        (snd (gst_perf_transform_ip one_second_in (plain_buffer 1000000005 100)))
       = Inr 1000000005
   \<and> report_times fresh_session
        [Buffer (plain_buffer 0 100), Buffer (plain_buffer 500000000 100),
         Buffer (plain_buffer 1000000000 100)] = [0, 1000000000]
   \<and> one_second_apart 0 1000000000"
proof -
  have ok: "window_ok one_second_in"
    using fresh_session_window_ok by (simp add: window_ok_def one_second_in_def)
  have p: "prev_timestamp one_second_in = 5"
    by (simp add: one_second_in_def)
  have steps:
    "fst (gst_perf_transform_ip one_second_in (plain_buffer 1000000004 100)) = None
     \<and> fst (gst_perf_transform_ip one_second_in (plain_buffer 1000000005 100)) \<noteq> None
     \<and> map_sum id prev_timestamp
          (snd (gst_perf_transform_ip one_second_in (plain_buffer 1000000004 100))) = Inr 5
     \<and> map_sum id prev_timestamp
          (snd (gst_perf_transform_ip one_second_in (plain_buffer 1000000005 100)))
         = Inr 1000000005"
    using C6_report_cadence [where perf = one_second_in and elem = one_second_in
                               and env = "plain_buffer 1000000004 100" and evs = "[]"]
          C6_report_cadence [where perf = one_second_in and elem = one_second_in
                               and env = "plain_buffer 1000000005 100" and evs = "[]"] ok
    by (simp add: p plain_buffer_def GST_CLOCK_TIME_NONE_def GST_SECOND_def
             split: sum.splits)
  have "successively one_second_apart
          (report_times fresh_session
            [Buffer (plain_buffer 0 100), Buffer (plain_buffer 500000000 100),
             Buffer (plain_buffer 1000000000 100)])"
    using C6_report_cadence [where elem = gst_perf_init
            and evs = "[Buffer (plain_buffer 0 100), Buffer (plain_buffer 500000000 100),
                        Buffer (plain_buffer 1000000000 100)]"]
    unfolding fresh_session_def [symmetric]
    by (simp add: plain_buffer_now GST_CLOCK_TIME_NONE_def)
  then have "one_second_apart 0 1000000000"
    by (simp only: three_buffers) simp
  then show ?thesis
    using steps three_buffers by simp
qed

text \<open>
  Against C6 as stated: the very first buffer of a session, with no time stored, does
  emit a report.
\<close>

theorem C6_first_buffer_reports:
  "prev_timestamp fresh_session = GST_CLOCK_TIME_NONE
   \<and> fst (gst_perf_transform_ip fresh_session (plain_buffer 0 100)) \<noteq> None"
  by (simp add: transform_ip_emitted report_due_def fresh_session_fields)

text \<open>
  C7, as amended.  Clearing the session stores the readings (0, 0), so the first
  computation after it takes the current readings themselves as the differences.  It
  returns 0 when the current total is 0.  Otherwise it returns a computed load, not a
  mark of an unknown one: when the idle ticks are not more than the total ones and
  \<open>1000 * (total - idle)\<close> is below \<open>2\<^sup>3\<^sup>2\<close>, the load \<open>(1000 * (total - idle) / total + 5) / 10\<close>
  over the integers.  It stores the current readings.
\<close>

theorem C7_first_cpu_load:
  "prev_cpu_idle (gst_perf_clear perf) = 0 \<and> prev_cpu_total (gst_perf_clear perf) = 0
   \<and> current_idle - prev_cpu_idle (gst_perf_clear perf) = current_idle
   \<and> current_total - prev_cpu_total (gst_perf_clear perf) = current_total
   \<and> (current_total = 0
       \<longrightarrow> fst (gst_perf_compute_cpu (gst_perf_clear perf) current_idle current_total) = 0)
   \<and> (current_idle \<le> current_total
        \<and> 1000 * (unat current_total - unat current_idle) < 2 ^ 32
       \<longrightarrow> unat (fst (gst_perf_compute_cpu (gst_perf_clear perf) current_idle current_total))
           = cpu_load_spec (unat current_total - unat current_idle) (unat current_total))
   \<and> snd (gst_perf_compute_cpu (gst_perf_clear perf) current_idle current_total) =
       (gst_perf_clear perf)\<lparr>prev_cpu_total := current_total, prev_cpu_idle := current_idle\<rparr>"
proof -
  have p: "prev_cpu_idle (gst_perf_clear perf) = 0" "prev_cpu_total (gst_perf_clear perf) = 0"
    by (simp_all add: gst_perf_clear_def gst_perf_reset_def)
  have z: "fst (gst_perf_compute_cpu (gst_perf_clear perf) current_idle current_total) = 0"
    if "current_total = 0"
    using that by (simp add: compute_cpu_round_percent p)
  have e: "unat (fst (gst_perf_compute_cpu (gst_perf_clear perf) current_idle current_total))
           = cpu_load_spec (unat current_total - unat current_idle) (unat current_total)"
    if "current_idle \<le> current_total"
      and "1000 * (unat current_total - unat current_idle) < 2 ^ 32"
    using compute_cpu_exact [of current_idle "gst_perf_clear perf" current_total] that
    by (simp add: p word_le_nat_alt)
  show ?thesis
    using z e by (simp add: p compute_cpu_frame)
qed

text \<open>
  First readings of 150 idle ticks in 300 give 50; a total of 0 gives 0; and so do 300
  idle ticks in 300, a computed load of 0.
\<close>

theorem C7_first_cpu_load_witness:
  "(150 :: guint32) \<le> 300
   \<and> unat (fst (gst_perf_compute_cpu (gst_perf_clear gst_perf_init) 150 300)) = 50
   \<and> cpu_load_spec (300 - 150) 300 = 50
   \<and> fst (gst_perf_compute_cpu (gst_perf_clear gst_perf_init) 7 0) = 0
   \<and> unat (fst (gst_perf_compute_cpu (gst_perf_clear gst_perf_init) 300 300)) = 0"
proof -
  have a: "unat (fst (gst_perf_compute_cpu (gst_perf_clear gst_perf_init) 150 300)) = 50"
    using C7_first_cpu_load [of gst_perf_init 150 300]
    by (simp add: cpu_load_spec_def)
  have b: "fst (gst_perf_compute_cpu (gst_perf_clear gst_perf_init) 7 0) = 0"
    using C7_first_cpu_load [of gst_perf_init 7 0]
    by simp
  have c: "unat (fst (gst_perf_compute_cpu (gst_perf_clear gst_perf_init) 300 300)) = 0"
    using C7_first_cpu_load [of gst_perf_init 300 300]
    by (simp add: cpu_load_spec_def)
  show ?thesis
    using a b c by (simp add: cpu_load_spec_def)
qed

text \<open>
  Against C7 as stated: the first computation of a fresh session, on the readings
  (150, 300), returns 50, and the first report carries this load.
\<close>

theorem C7_first_load_is_computed:
  "fst (gst_perf_compute_cpu fresh_session 150 300) = 50
   \<and> map_option st_cpu_load
        (fst (gst_perf_transform_ip fresh_session
               ((plain_buffer 0 100)\<lparr>proc_stat := Some first_reading\<rparr>))) = Some 50"
proof -
  have a: "fst (gst_perf_compute_cpu fresh_session 150 300) = 50"
    by (simp add: gst_perf_compute_cpu_def fresh_session_def gst_perf_start_def
                  gst_perf_init_def gst_perf_clear_def gst_perf_reset_def Let_def)
  have due: "report_due fresh_session ((plain_buffer 0 100)\<lparr>proc_stat := Some first_reading\<rparr>)"
    by (simp add: report_due_def fresh_session_fields)
  have "st_cpu_load (snd (transform_ip_report fresh_session t d
          ((plain_buffer 0 100)\<lparr>proc_stat := Some first_reading\<rparr>))) = 50" for t d
    by (simp add: transform_ip_report_def Let_def case_prod_unfold gst_perf_cpu_get_load_def
                  gst_perf_compute_cpu_def plain_buffer_def first_reading_def
                  fresh_session_def gst_perf_start_def gst_perf_init_def gst_perf_clear_def
                  gst_perf_reset_def)
  then show ?thesis
    using a due by (simp add: transform_ip_emitted)
qed

text \<open>
  C8.  The claim: the bitrate is recomputed by the timer only, and a buffer only counts.
  The code: \<^verbatim>\<open>gst_perf_transform_ip\<close> ends with a call of \<^verbatim>\<open>gst_perf_update_bps\<close>, so every
  buffer (in a session whose window is as long as its size) drains the byte counter,
  counts one more sample and publishes a bitrate computed from the bytes counted so far,
  those of this buffer included, over the full interval.
\<close>

theorem C8_data_path_runs_sampler:
  assumes "window_ok perf"
  shows "case snd (gst_perf_transform_ip perf env) of
           Inl _ \<Rightarrow> False
         | Inr perf' \<Rightarrow>
             byte_count perf' = 0
             \<and> byte_count_total perf' = byte_count_total perf + 1
             \<and> bps perf' =
                 fdiv (u32_to_double (ucast (byte_count perf + buf_size env)
                                      * GST_PERF_BITS_PER_BYTE))
                      (fdiv (u32_to_double (bps_running_interval perf)) GST_PERF_MS_PER_S)"
  using transform_ip_frame [OF assms, of env]
  by (simp add: GST_PERF_BITS_PER_BYTE_def GST_PERF_MS_PER_S_def split: sum.splits)

text \<open>
  The first buffer of a fresh session, 1000 bytes: afterwards the byte counter is 0 again,
  one sample is counted and the bitrate published is 8000.
\<close>

theorem C8_data_path_runs_sampler_witness:
  "window_ok fresh_session
   \<and> byte_count fresh_session = 0 \<and> byte_count_total fresh_session = 0
   \<and> map_sum id byte_count
        (snd (gst_perf_transform_ip fresh_session (plain_buffer 0 1000))) = Inr 0
   \<and> map_sum id byte_count_total
        (snd (gst_perf_transform_ip fresh_session (plain_buffer 0 1000))) = Inr 1
   \<and> map_sum id bps
        (snd (gst_perf_transform_ip fresh_session (plain_buffer 0 1000)))
       = Inr (int_to_double 8000)
   \<and> valof (int_to_double 8000) = Some 8000"
  using C8_data_path_runs_sampler [OF fresh_session_window_ok, of "plain_buffer 0 1000"]
  by (simp add: fresh_session_fields fresh_session_window_ok plain_buffer_def
                GST_PERF_BITS_PER_BYTE_def GST_PERF_MS_PER_S_def bps_of_1000_bytes
                valof_examples
           split: sum.splits)

text \<open>
  C9.  The claim: while a session runs, \<open>byte_count_total\<close> only grows.  The code:
  \<^verbatim>\<open>perf->byte_count_total++\<close> is outside the mutexes, and \<^verbatim>\<open>gst_perf_update_bps\<close> runs
  on the thread of the timer and on the streaming thread.  When a call of the timer has
  read the field, and buffers pass before it writes it back, the write finds the count it
  has read plus one for each buffer, and leaves the count it has read plus one: with two
  buffers or more (and no wrap at \<open>2\<^sup>6\<^sup>4\<close>), \<open>byte_count_total\<close> goes back.  This holds in
  every session whose window is as long as its size, as it is from \<^verbatim>\<open>gst_perf_start\<close>
  on.  (A call of the timer that no buffer interrupts is \<^verbatim>\<open>gst_perf_update_bps\<close> as a
  whole.)
\<close>

theorem C9_total_goes_back:
  "timer_call perf [] = gst_perf_update_bps perf
   \<and> window_ok (gst_perf_start elem) \<and> byte_count_total (gst_perf_start elem) = 0
   \<and> (window_ok perf \<longrightarrow>
        (case interrupted_call perf envs of
           Inl _ \<Rightarrow> False
         | Inr (perf2, v) \<Rightarrow>
             v = byte_count_total perf
             \<and> byte_count_total perf2 = byte_count_total perf + of_nat (length envs)
             \<and> timer_call perf envs = Inr (update_bps_write_back v perf2)
             \<and> byte_count_total (update_bps_write_back v perf2) = byte_count_total perf + 1
             \<and> (2 \<le> length envs \<and> unat (byte_count_total perf) + length envs < 2 ^ 64
                 \<longrightarrow> byte_count_total (update_bps_write_back v perf2)
                     < byte_count_total perf2)))"
proof -
  have b: "case interrupted_call perf envs of
           Inl _ \<Rightarrow> False
         | Inr (perf2, v) \<Rightarrow>
             v = byte_count_total perf
             \<and> byte_count_total perf2 = byte_count_total perf + of_nat (length envs)
             \<and> timer_call perf envs = Inr (update_bps_write_back v perf2)
             \<and> byte_count_total (update_bps_write_back v perf2) = byte_count_total perf + 1
             \<and> (2 \<le> length envs \<and> unat (byte_count_total perf) + length envs < 2 ^ 64
                 \<longrightarrow> byte_count_total (update_bps_write_back v perf2)
                     < byte_count_total perf2)" if ok: "window_ok perf"
    using interrupted_call_frame [OF ok, of envs]
          word_succ_less_add [of "length envs" "byte_count_total perf"]
    by (auto simp: timer_call_def update_bps_write_back_def split: sum.splits)
  show ?thesis
    using b by (simp only: timer_call_alone start_window_ok start_fields) simp
qed

text \<open>
  A fresh session, and two buffers between the read and the write of the timer's first
  call: 2 samples are counted when the call writes, 1 afterwards.
\<close>

theorem C9_total_goes_back_witness:
  "window_ok fresh_session \<and> byte_count_total fresh_session = 0
   \<and> map_sum id (\<lambda>(perf2, v). (v, byte_count_total perf2))
        (interrupted_call fresh_session two_buffers) = Inr (0, 2)
   \<and> map_sum id byte_count_total (timer_call fresh_session two_buffers) = Inr 1
   \<and> (1 :: guint64) < 2"
  using C9_total_goes_back [where perf = fresh_session and elem = gst_perf_init
                              and envs = two_buffers]
  unfolding fresh_session_def [symmetric]
  by (auto simp: two_buffers_def fresh_session_fields split: sum.splits)

text \<open>
  C10, as amended.  A report delivers the GPU snapshot the element holds when the signal is
  emitted.  When the counters are disabled or the query fails (the command could not be
  run, or its exit status is not 0), this is the snapshot held before the buffer,
  unchanged: whatever the last successful query left.  When the counters are enabled and
  the query succeeds with at least seven comma-separated tokens, all seven fields are the
  numbers \<^verbatim>\<open>atol\<close> reads from the first seven tokens, whatever the snapshot was.
  \<^verbatim>\<open>gst_perf_start\<close> zeroes the snapshot, and in a run of a started session in which the
  counters are disabled or no query succeeds, every report delivers seven zeros.
\<close>

theorem C10_gpu_fields:
  "(fst (gst_perf_transform_ip perf env) = Some r \<longrightarrow>
      (\<not> gpu_stats_enabled perf \<or> \<not> query_ok (nvidia_smi env)
          \<longrightarrow> st_gpu_stats r = gpu_stats perf)
       \<and> (gpu_stats_enabled perf \<and> query_ok (nvidia_smi env)
          \<and> strtok_tokens (c_string (spawn_output (nvidia_smi env)))
              = t0 # t1 # t2 # t3 # t4 # t5 # t6 # rest
          \<longrightarrow> st_gpu_stats r =
                \<lparr>encoder_utilization = ucast (word_of_int (atol t0) :: guint64),
                 session_count = ucast (word_of_int (atol t1) :: guint64),
                 average_fps = ucast (word_of_int (atol t2) :: guint64),
                 average_latency = word_of_int (atol t3),
                 gpu_utilization = ucast (word_of_int (atol t4) :: guint64),
                 memory_used = ucast (word_of_int (atol t5) :: guint64),
                 memory_free = ucast (word_of_int (atol t6) :: guint64)\<rparr>))
   \<and> gpu_stats (gst_perf_start perf0) = gpu_stats_zero
   \<and> ((if gpu_stats_enabled perf0 then list_all (\<lambda>e. \<not> event_query_ok e) evs else True)
       \<longrightarrow> list_all (\<lambda>r. st_gpu_stats r = gpu_stats_zero)
             (fst (run (gst_perf_start perf0) evs)))"
proof -
  have one: "(\<not> gpu_stats_enabled perf \<or> \<not> query_ok (nvidia_smi env)
          \<longrightarrow> st_gpu_stats r = gpu_stats perf)
       \<and> (gpu_stats_enabled perf \<and> query_ok (nvidia_smi env)
          \<and> strtok_tokens (c_string (spawn_output (nvidia_smi env)))
              = t0 # t1 # t2 # t3 # t4 # t5 # t6 # rest
          \<longrightarrow> st_gpu_stats r =
                \<lparr>encoder_utilization = ucast (word_of_int (atol t0) :: guint64),
                 session_count = ucast (word_of_int (atol t1) :: guint64),
                 average_fps = ucast (word_of_int (atol t2) :: guint64),
                 average_latency = word_of_int (atol t3),
                 gpu_utilization = ucast (word_of_int (atol t4) :: guint64),
                 memory_used = ucast (word_of_int (atol t5) :: guint64),
                 memory_free = ucast (word_of_int (atol t6) :: guint64)\<rparr>)"
    if em: "fst (gst_perf_transform_ip perf env) = Some r"
  proof -
    have r: "r = snd (transform_ip_report perf (now env) (now env - prev_timestamp perf) env)"
      using em by (simp add: transform_ip_emitted split: if_splits)
    have g: "st_gpu_stats r =
          (if gpu_stats_enabled perf
           then gpu_stats (snd (gst_perf_get_gpu_stats perf (nvidia_smi env)))
           else gpu_stats perf)"
      by (simp add: r report_frame)
    have failed: "st_gpu_stats r = gpu_stats perf"
      if "\<not> gpu_stats_enabled perf \<or> \<not> query_ok (nvidia_smi env)"
      using that by (auto simp: g gst_perf_get_gpu_stats_def query_ok_def)
    have replaced: "st_gpu_stats r =
                  \<lparr>encoder_utilization = ucast (word_of_int (atol t0) :: guint64),
                   session_count = ucast (word_of_int (atol t1) :: guint64),
                   average_fps = ucast (word_of_int (atol t2) :: guint64),
                   average_latency = word_of_int (atol t3),
                   gpu_utilization = ucast (word_of_int (atol t4) :: guint64),
                   memory_used = ucast (word_of_int (atol t5) :: guint64),
                   memory_free = ucast (word_of_int (atol t6) :: guint64)\<rparr>"
      if en: "gpu_stats_enabled perf" and ok: "query_ok (nvidia_smi env)"
        and tokens: "strtok_tokens (c_string (spawn_output (nvidia_smi env)))
                = t0 # t1 # t2 # t3 # t4 # t5 # t6 # rest"
    proof -
      have "st_gpu_stats r =
              gpu_stats_loop 0 (strtok_tokens (c_string (spawn_output (nvidia_smi env))))
                (gpu_stats perf)"
        using en ok by (simp add: g gst_perf_get_gpu_stats_def query_ok_def)
      then show ?thesis
        by (simp only: tokens gpu_stats_loop_seven)
    qed
    show ?thesis
      using failed replaced by blast
  qed
  have rn: "list_all (\<lambda>r. st_gpu_stats r = gpu_stats_zero)
             (fst (run (gst_perf_start perf0) evs))"
    if pre: "if gpu_stats_enabled perf0 then list_all (\<lambda>e. \<not> event_query_ok e) evs else True"
  proof -
    have "if gpu_stats_enabled (gst_perf_start perf0)
          then list_all (\<lambda>e. \<not> event_query_ok e) evs else True"
      using pre by (simp add: start_fields)
    from run_frame [OF start_window_ok this] show ?thesis
      by (simp add: start_fields split: prod.splits sum.splits)
  qed
  show ?thesis
    using one rn start_fields(5) by blast
qed

text \<open>
  The first buffer of a session with the counters enabled: with the answer of
  \<^verbatim>\<open>nvidia-smi\<close> the report carries the parsed snapshot, with a failing query it carries
  zeros; and so do the reports of a run of failing queries, of which there is at least one.
\<close>

theorem C10_gpu_fields_witness:
  "map_option st_gpu_stats (fst (gst_perf_transform_ip gpu_session (smi_buffer 0 100)))
     = Some smi_snapshot
   \<and> map_option st_gpu_stats (fst (gst_perf_transform_ip gpu_session (plain_buffer 0 100)))
     = Some gpu_stats_zero
   \<and> fst (run gpu_session [Buffer (plain_buffer 0 100), Tick,
                             Buffer (plain_buffer 1000000000 100)]) \<noteq> []
   \<and> list_all (\<lambda>r. st_gpu_stats r = gpu_stats_zero)
       (fst (run gpu_session [Buffer (plain_buffer 0 100), Tick,
                              Buffer (plain_buffer 1000000000 100)]))"
proof -
  have due: "report_due gpu_session env" for env
    by (simp add: report_due_def gpu_session_facts)
  obtain r1 where r1: "fst (gst_perf_transform_ip gpu_session (smi_buffer 0 100)) = Some r1"
    by (simp add: transform_ip_emitted due)
  obtain r2 where r2: "fst (gst_perf_transform_ip gpu_session (plain_buffer 0 100)) = Some r2"
    by (simp add: transform_ip_emitted due)
  have n: "nvidia_smi (smi_buffer 0 100) = smi_answer"
    by (simp add: smi_buffer_def plain_buffer_def)
  have q: "query_ok smi_answer" "\<not> query_ok (nvidia_smi (plain_buffer t k))" for t k
    by (simp_all add: query_ok_def smi_answer_def plain_buffer_def)
  have "st_gpu_stats r1 = smi_snapshot"
    using C10_gpu_fields [of gpu_session "smi_buffer 0 100" r1 "''5 %''" "'' 1''" "'' 30''"
        "'' 100''" "'' 7 %''" "'' 300 MiB''" "'' 7000 MiB\<newline>''" "[]" gst_perf_init "[]"] r1
    by (simp add: n q gpu_session_facts smi_tokens smi_numbers smi_snapshot_def)
  moreover have "st_gpu_stats r2 = gpu_stats_zero"
    using C10_gpu_fields [of gpu_session "plain_buffer 0 100" r2 _ _ _ _ _ _ _ _
                              gst_perf_init "[]"] r2
    by (simp add: gpu_session_facts q)
  moreover have "list_all (\<lambda>r. st_gpu_stats r = gpu_stats_zero)
       (fst (run gpu_session [Buffer (plain_buffer 0 100), Tick,
                              Buffer (plain_buffer 1000000000 100)]))"
    using C10_gpu_fields [of gpu_session "plain_buffer 0 100" r2 _ _ _ _ _ _ _ _
              "gst_perf_init\<lparr>gpu_stats_enabled := True\<rparr>"
              "[Buffer (plain_buffer 0 100), Tick, Buffer (plain_buffer 1000000000 100)]"]
    unfolding gpu_session_def [symmetric]
    by (simp add: q)
  moreover have "fst (run gpu_session (Buffer (plain_buffer 0 100) # es)) \<noteq> []" for es
  proof -
    obtain p where "snd (gst_perf_transform_ip gpu_session (plain_buffer 0 100)) = Inr p"
      using transform_ip_frame [OF gpu_session_facts(1), of "plain_buffer 0 100"]
      by (cases "snd (gst_perf_transform_ip gpu_session (plain_buffer 0 100))") auto
    then have "gst_perf_transform_ip gpu_session (plain_buffer 0 100) = (Some r2, Inr p)"
      by (simp add: prod_eq_iff r2)
    then show ?thesis
      by (simp add: case_prod_unfold)
  qed
  ultimately show ?thesis
    by (simp add: r1 r2 del: run.simps)
qed

text \<open>
  Against C10 as stated: after one successful query, a report assembled one second later
  while the query fails delivers the snapshot of that query (encoder utilization 5), not
  zeros.
\<close>

theorem C10_failed_query_keeps_snapshot:
  "gpu_stats_enabled after_gpu_success
   \<and> spawn_ret (nvidia_smi (plain_buffer 1000000000 100)) = False
   \<and> map_option st_gpu_stats
       (fst (gst_perf_transform_ip after_gpu_success (plain_buffer 1000000000 100)))
     = Some smi_snapshot
   \<and> encoder_utilization smi_snapshot = 5"
proof -
  have n: "nvidia_smi (smi_buffer 0 100) = smi_answer" "now (smi_buffer 0 100) = 0"
    by (simp_all add: smi_buffer_def plain_buffer_def)
  have due: "report_due gpu_session (smi_buffer 0 100)"
    by (simp add: report_due_def gpu_session_facts)
  have s: "gpu_stats_enabled after_gpu_success \<and> prev_timestamp after_gpu_success = 0
           \<and> gpu_stats after_gpu_success = smi_snapshot"
    using transform_ip_frame [OF gpu_session_facts(1), of "smi_buffer 0 100"]
    by (simp add: after_gpu_success_def due n gpu_session_facts gst_perf_get_gpu_stats_def
                  smi_parsed split: sum.splits)
       (simp add: smi_answer_def)
  have due2: "report_due after_gpu_success (plain_buffer 1000000000 100)"
    by (simp add: report_due_def s plain_buffer_def GST_CLOCK_TIME_NONE_def GST_SECOND_def)
  have "st_gpu_stats (snd (transform_ip_report after_gpu_success t d
          (plain_buffer 1000000000 100))) = smi_snapshot" for t d
    by (simp add: report_frame s gst_perf_get_gpu_stats_def plain_buffer_def)
  moreover have "spawn_ret (nvidia_smi (plain_buffer 1000000000 100)) = False"
    by (simp add: plain_buffer_def)
  moreover have "encoder_utilization smi_snapshot = 5"
    by (simp add: smi_snapshot_def)
  ultimately show ?thesis
    by (simp add: transform_ip_emitted due2 s)
qed

end
